theory Spec2Isabelle
  imports Complex_Main "HOL-Library.Multiset"
begin

section \<open>Domain model (types.ts)\<close>

text \<open>
  The entity shapes of \<^verbatim>\<open>types.ts\<close>. Optional fields are options, JavaScript numbers that
  hold counters, scores and clock readings are integers. Field names carry a prefix where
  two interfaces share a name (\<^verbatim>\<open>id\<close>, \<^verbatim>\<open>name\<close>, \<^verbatim>\<open>type\<close>).

  The \<^verbatim>\<open>date\<close> of a match is an ISO-8601 stamp written by \<^verbatim>\<open>new Date().toISOString()\<close>;
  the only thing the code ever does with it is \<^verbatim>\<open>new Date(m.date).getTime()\<close>, so the record
  keeps that time value (milliseconds). Stamps that do not parse are outside the model.
\<close>

datatype Position = GK | DEF | MID | FWD

datatype EventType = GOAL | ASSIST | YELLOW_CARD | RED_CARD | SAVE | SUBSTITUTION

datatype Side = home | away

record Player =
  p_id :: string
  p_name :: string
  nickname :: "string option"
  photoUrl :: "string option"
  position :: Position
  initialGoals :: "int option"
  initialAssists :: "int option"
  initialMatches :: "int option"
  initialSaves :: "int option"
  initialClearances :: "int option"

record MatchEvent =
  e_id :: string
  matchId :: string
  side :: Side
  playerId :: string
  assistPlayerId :: "string option"
  e_type :: EventType
  minute :: int
  timestamp :: int

record Match =
  m_id :: string
  homeTeamName :: string
  awayTeamName :: string
  homePlayerIds :: "string list"
  awayPlayerIds :: "string list"
  homeScore :: int
  awayScore :: int
  date :: int
  isFinished :: bool
  events :: "MatchEvent list"
  aiAnalysis :: "string option"

section \<open>Array helpers\<close>

text \<open>
  \<^verbatim>\<open>Array.prototype.sort(cmp)\<close>: the language standard makes the sort stable, and for a
  comparator that is a consistent ordering of the elements the result is then determined:
  it is what stable insertion computes. For a comparator that is not a consistent ordering
  the standard leaves the order to the engine; no theorem below relies on the order
  computed in that case.
\<close>

fun insort_by :: "('a \<Rightarrow> 'a \<Rightarrow> int) \<Rightarrow> 'a \<Rightarrow> 'a list \<Rightarrow> 'a list" where
  "insort_by cmp x [] = [x]"
| "insort_by cmp x (y # ys) = (if cmp x y \<le> 0 then x # y # ys else y # insort_by cmp x ys)"

definition js_sort :: "('a \<Rightarrow> 'a \<Rightarrow> int) \<Rightarrow> 'a list \<Rightarrow> 'a list" where
  "js_sort cmp xs = foldr (insort_by cmp) xs []"

text \<open>\<^verbatim>\<open>Array.prototype.findIndex\<close>, with \<open>None\<close> for the result \<^verbatim>\<open>-1\<close>.\<close>

fun findIndex :: "('a \<Rightarrow> bool) \<Rightarrow> 'a list \<Rightarrow> nat option" where
  "findIndex P [] = None"
| "findIndex P (x # xs) = (if P x then Some 0 else map_option Suc (findIndex P xs))"

section \<open>Numbers and exceptions\<close>

text \<open>
  The counters and scores are JavaScript numbers, that is doubles, which hold whole values
  here. \<^verbatim>\<open>x++\<close> stores the sum \<open>x + 1\<close> rounded to the nearest double, a tie going to the
  even significand of 53 bits. Every whole number of magnitude up to \<open>2^53\<close> is a double,
  so the rounding changes nothing as long as the sum stays in that range; above it the
  doubles are two or more apart. (\<open>x\<close> being a double, the sum is far below the magnitude
  that rounds to infinity.)
\<close>

fun bit_length :: "nat \<Rightarrow> nat" where
  "bit_length n = (if n = 0 then 0 else Suc (bit_length (n div 2)))"

declare bit_length.simps [simp del]

definition to_double :: "int \<Rightarrow> int" where
  "to_double y =
     (let a = nat \<bar>y\<bar>
      in if a \<le> 2 ^ 53 then y
         else
           (let ulp = 2 ^ (bit_length a - 53); q = a div ulp; r = a mod ulp;
                q' = (if 2 * r > ulp \<or> (2 * r = ulp \<and> odd q) then q + 1 else q)
            in sgn y * int (q' * ulp)))"

definition incr :: "int \<Rightarrow> int" where
  "incr x = to_double (x + 1)"

text \<open>A call either returns a value or throws.\<close>

datatype 'a outcome = Throws | Returns 'a

section \<open>Persistence gateway (services/db.ts)\<close>

text \<open>
  Browser-local storage holds each collection as one JSON array under one key; a key that
  was never written reads as \<^verbatim>\<open>null\<close>. The entities hold strings, integers, booleans and
  lists of these, which \<^verbatim>\<open>JSON.stringify\<close> and \<^verbatim>\<open>JSON.parse\<close> give back unchanged (an absent
  optional field stays absent), so the model stores the entities themselves. The hosted
  store holds one table per collection.
\<close>

record Db =
  ls_players :: "Player list option"
  ls_matches :: "Match list option"
  tbl_players :: "(string \<times> Player) list"
  tbl_matches :: "(string \<times> Match) list"

text \<open>
  Modelled from the spec: the hosted row store is an external service, of which the
  repository holds only the calls. Following section 4.1 (remote backend mapping), a table
  is a list of rows \<open>(id, json)\<close>; \<^verbatim>\<open>insert\<close> adds a row, \<^verbatim>\<open>update({json}).eq('id', k)\<close>
  replaces the \<^verbatim>\<open>json\<close> of the rows keyed \<open>k\<close>, \<^verbatim>\<open>delete().eq('id', k)\<close> removes them and
  \<^verbatim>\<open>select('json')\<close> returns the \<^verbatim>\<open>json\<close> column as \<^verbatim>\<open>data\<close>. Every call either succeeds or
  answers with an \<^verbatim>\<open>error\<close> and changes nothing; which of the two happens is up to the
  service and is an argument (\<open>reply\<close>) of every gateway operation.
\<close>

datatype reply = Ok | Err

definition remote_select :: "reply \<Rightarrow> (string \<times> 'a) list \<Rightarrow> 'a list option" where
  "remote_select r rows = (case r of Err \<Rightarrow> None | Ok \<Rightarrow> Some (map snd rows))"

definition remote_insert :: "reply \<Rightarrow> string \<Rightarrow> 'a \<Rightarrow> (string \<times> 'a) list \<Rightarrow> (string \<times> 'a) list" where
  "remote_insert r k json rows = (case r of Err \<Rightarrow> rows | Ok \<Rightarrow> rows @ [(k, json)])"

definition remote_update :: "reply \<Rightarrow> string \<Rightarrow> 'a \<Rightarrow> (string \<times> 'a) list \<Rightarrow> (string \<times> 'a) list" where
  "remote_update r k json rows =
     (case r of Err \<Rightarrow> rows
      | Ok \<Rightarrow> map (\<lambda>(k', old). if k' = k then (k', json) else (k', old)) rows)"

definition remote_delete :: "reply \<Rightarrow> string \<Rightarrow> (string \<times> 'a) list \<Rightarrow> (string \<times> 'a) list" where
  "remote_delete r k rows =
     (case r of Err \<Rightarrow> rows | Ok \<Rightarrow> filter (\<lambda>(k', old). k' \<noteq> k) rows)"

definition by_date_desc :: "Match \<Rightarrow> Match \<Rightarrow> int" where
  "by_date_desc a b = date b - date a"

text \<open>
  The gateway of the variant with the local fallback. The first argument is the flag
  \<^verbatim>\<open>isSupabaseConfigured\<close>, fixed at start-up; the client is taken to have been constructed
  whenever the flag is set. An error of the hosted store is logged and nothing else happens:
  a read returns the empty list, a write returns.
\<close>

definition getAllPlayers :: "bool \<Rightarrow> reply \<Rightarrow> Db \<Rightarrow> Player list" where
  "getAllPlayers isSupabaseConfigured r db =
     (if \<not> isSupabaseConfigured then
        (case ls_players db of None \<Rightarrow> [] | Some stored \<Rightarrow> stored)
      else (case remote_select r (tbl_players db) of None \<Rightarrow> [] | Some data \<Rightarrow> data))"

definition addPlayer :: "bool \<Rightarrow> reply \<Rightarrow> Player \<Rightarrow> Db \<Rightarrow> Db" where
  "addPlayer isSupabaseConfigured r player db =
     (if \<not> isSupabaseConfigured then
        (let players = getAllPlayers isSupabaseConfigured r db
         in db\<lparr>ls_players := Some (players @ [player])\<rparr>)
      else db\<lparr>tbl_players := remote_insert r (p_id player) player (tbl_players db)\<rparr>)"

definition updatePlayer :: "bool \<Rightarrow> reply \<Rightarrow> Player \<Rightarrow> Db \<Rightarrow> Db" where
  "updatePlayer isSupabaseConfigured r player db =
     (if \<not> isSupabaseConfigured then
        (let players = getAllPlayers isSupabaseConfigured r db
         in case findIndex (\<lambda>p. p_id p = p_id player) players of
              None \<Rightarrow> db
            | Some index \<Rightarrow> db\<lparr>ls_players := Some (players[index := player])\<rparr>)
      else db\<lparr>tbl_players := remote_update r (p_id player) player (tbl_players db)\<rparr>)"

definition deletePlayer :: "bool \<Rightarrow> reply \<Rightarrow> string \<Rightarrow> Db \<Rightarrow> Db" where
  "deletePlayer isSupabaseConfigured r ident db =
     (if \<not> isSupabaseConfigured then
        (let players = getAllPlayers isSupabaseConfigured r db;
             filtered = filter (\<lambda>p. p_id p \<noteq> ident) players
         in db\<lparr>ls_players := Some filtered\<rparr>)
      else db\<lparr>tbl_players := remote_delete r ident (tbl_players db)\<rparr>)"

definition getAllMatches :: "bool \<Rightarrow> reply \<Rightarrow> Db \<Rightarrow> Match list" where
  "getAllMatches isSupabaseConfigured r db =
     (if \<not> isSupabaseConfigured then
        (let matches = (case ls_matches db of None \<Rightarrow> [] | Some stored \<Rightarrow> stored)
         in js_sort by_date_desc matches)
      else (case remote_select r (tbl_matches db) of
              None \<Rightarrow> []
            | Some data \<Rightarrow> js_sort by_date_desc data))"

definition addMatch :: "bool \<Rightarrow> reply \<Rightarrow> Match \<Rightarrow> Db \<Rightarrow> Db" where
  "addMatch isSupabaseConfigured r match db =
     (if \<not> isSupabaseConfigured then
        (let matches = getAllMatches isSupabaseConfigured r db
         in db\<lparr>ls_matches := Some (matches @ [match])\<rparr>)
      else db\<lparr>tbl_matches := remote_insert r (m_id match) match (tbl_matches db)\<rparr>)"

definition updateMatch :: "bool \<Rightarrow> reply \<Rightarrow> Match \<Rightarrow> Db \<Rightarrow> Db" where
  "updateMatch isSupabaseConfigured r match db =
     (if \<not> isSupabaseConfigured then
        (let matches = getAllMatches isSupabaseConfigured r db
         in case findIndex (\<lambda>m. m_id m = m_id match) matches of
              None \<Rightarrow> db
            | Some index \<Rightarrow> db\<lparr>ls_matches := Some (matches[index := match])\<rparr>)
      else db\<lparr>tbl_matches := remote_update r (m_id match) match (tbl_matches db)\<rparr>)"

definition deleteMatch :: "bool \<Rightarrow> reply \<Rightarrow> string \<Rightarrow> Db \<Rightarrow> Db" where
  "deleteMatch isSupabaseConfigured r ident db =
     (if \<not> isSupabaseConfigured then
        (let matches = getAllMatches isSupabaseConfigured r db;
             filtered = filter (\<lambda>m. m_id m \<noteq> ident) matches
         in db\<lparr>ls_matches := Some filtered\<rparr>)
      else db\<lparr>tbl_matches := remote_delete r ident (tbl_matches db)\<rparr>)"

text \<open>
  The other variant of the gateway has no local fallback: without a client every read is
  empty and every write does nothing. Its first argument says whether the client exists.
\<close>

definition getAllMatches_degraded :: "bool \<Rightarrow> reply \<Rightarrow> Db \<Rightarrow> Match list" where
  "getAllMatches_degraded supabase r db =
     (if \<not> supabase then []
      else (case remote_select r (tbl_matches db) of
              None \<Rightarrow> []
            | Some data \<Rightarrow> js_sort by_date_desc data))"

text \<open>What is persisted under the two local keys, read without any processing.\<close>

definition stored_players :: "Db \<Rightarrow> Player list" where
  "stored_players db = (case ls_players db of None \<Rightarrow> [] | Some stored \<Rightarrow> stored)"

definition stored_matches :: "Db \<Rightarrow> Match list" where
  "stored_matches db = (case ls_matches db of None \<Rightarrow> [] | Some stored \<Rightarrow> stored)"

definition date_descending :: "Match list \<Rightarrow> bool" where
  "date_descending ms = sorted_wrt (\<lambda>a b. date a \<ge> date b) ms"

text \<open>The match keeps the date of the first listed match with its identifier, if there is one.\<close>

definition keeps_date :: "Match \<Rightarrow> Match list \<Rightarrow> bool" where
  "keeps_date m ms =
     (case find (\<lambda>x. m_id x = m_id m) ms of None \<Rightarrow> True | Some old \<Rightarrow> date old = date m)"

section \<open>Sample data\<close>

definition mk_player :: "string \<Rightarrow> string \<Rightarrow> Position \<Rightarrow> int \<Rightarrow> int \<Rightarrow> Player" where
  "mk_player i n pos g s =
     \<lparr>p_id = i, p_name = n, nickname = None, photoUrl = None, position = pos,
      initialGoals = Some g, initialAssists = Some 0, initialMatches = Some 0,
      initialSaves = Some s, initialClearances = Some 0\<rparr>"

definition mk_match :: "string \<Rightarrow> int \<Rightarrow> bool \<Rightarrow> Match" where
  "mk_match i d fin =
     \<lparr>m_id = i, homeTeamName = ''Equipo A'', awayTeamName = ''Equipo B'',
      homePlayerIds = [''1''], awayPlayerIds = [''2''], homeScore = 0, awayScore = 0,
      date = d, isFinished = fin, events = [], aiAnalysis = None\<rparr>"

definition empty_db :: Db where
  "empty_db = \<lparr>ls_players = None, ls_matches = None, tbl_players = [], tbl_matches = []\<rparr>"

definition db_ab :: Db where
  "db_ab = empty_db\<lparr>ls_matches := Some [mk_match ''a'' 3 True, mk_match ''b'' 2 True]\<rparr>"

definition db_abx :: Db where
  "db_abx = empty_db\<lparr>ls_matches :=
     Some [mk_match ''a'' 1 True, mk_match ''b'' 2 True, mk_match ''x'' 3 True]\<rparr>"

definition ana :: Player where
  "ana = mk_player ''1'' ''Ana'' MID 2 0"

definition beto :: Player where
  "beto = mk_player ''2'' ''Beto'' FWD 5 0"

definition mk_event :: "string \<Rightarrow> string option \<Rightarrow> EventType \<Rightarrow> MatchEvent" where
  "mk_event p a t =
     \<lparr>e_id = ''7'', matchId = ''m'', side = home, playerId = p, assistPlayerId = a,
      e_type = t, minute = 10, timestamp = 7\<rparr>"

definition sample_match :: Match where
  "sample_match = (mk_match ''m'' 1 True)
     \<lparr>events := [mk_event ''1'' None GOAL, mk_event ''2'' (Some ''1'') GOAL]\<rparr>"

section \<open>Statistics (App.tsx, both variants)\<close>

text \<open>\<^verbatim>\<open>Number(x || 0)\<close> for an optional counter: absent (or zero) reads as zero.\<close>

definition num :: "int option \<Rightarrow> int" where
  "num x = (case x of None \<Rightarrow> 0 | Some n \<Rightarrow> n)"

record Counters =
  goals :: int
  assists :: int
  matches :: int

record Stat = Counters +
  stat_id :: string
  stat_player :: "Player option"

text \<open>
  The variant with matches collects its counters in an object \<^verbatim>\<open>s\<close> created as \<^verbatim>\<open>{}\<close> and
  keyed by player identifier. The own properties of the object are a list of keys and
  values in creation order: writing an own key overwrites its value in place or appends the
  key.
\<close>

fun assign :: "(string \<times> 'v) list \<Rightarrow> string \<Rightarrow> 'v \<Rightarrow> (string \<times> 'v) list" where
  "assign [] k v = [(k, v)]"
| "assign ((k', v') # s) k v = (if k' = k then (k', v) # s else (k', v') # assign s k v)"

fun bump :: "(string \<times> 'v) list \<Rightarrow> string \<Rightarrow> ('v \<Rightarrow> 'v) \<Rightarrow> (string \<times> 'v) list" where
  "bump [] k f = []"
| "bump ((k', v') # s) k f = (if k' = k then (k', f v') # s else (k', v') # bump s k f)"

text \<open>
  Besides its own properties the object has a prototype, at first \<^verbatim>\<open>Object.prototype\<close>
  (\<open>None\<close> below). The key \<^verbatim>\<open>__proto__\<close> is an accessor inherited from there:
  \<^verbatim>\<open>s['__proto__'] = v\<close> creates no own property and makes the object \<open>v\<close> the prototype of
  \<^verbatim>\<open>s\<close>. Every other property of \<^verbatim>\<open>Object.prototype\<close> is a writable data property, so
  writing its name creates an own property like any other key.
\<close>

record Obj =
  own :: "(string \<times> Counters) list"
  proto :: "Counters option"

definition set_prop :: "Obj \<Rightarrow> string \<Rightarrow> Counters \<Rightarrow> Obj" where
  "set_prop s k v =
     (if k = ''__proto__'' then s\<lparr>proto := Some v\<rparr> else s\<lparr>own := assign (own s) k v\<rparr>)"

datatype Field = Goals | Assists | Matches

definition incr_field :: "Field \<Rightarrow> Counters \<Rightarrow> Counters" where
  "incr_field f c =
     (case f of Goals \<Rightarrow> c\<lparr>goals := incr (goals c)\<rparr>
              | Assists \<Rightarrow> c\<lparr>assists := incr (assists c)\<rparr>
              | Matches \<Rightarrow> c\<lparr>matches := incr (matches c)\<rparr>)"

definition read_field :: "string \<Rightarrow> Counters \<Rightarrow> int option" where
  "read_field k c =
     (if k = ''goals'' then Some (goals c)
      else if k = ''assists'' then Some (assists c)
      else if k = ''matches'' then Some (matches c)
      else None)"

text \<open>
  \<^verbatim>\<open>if (s[k]) s[k].f++\<close>. An own property holds a counter object, which is truthy, and its
  field is incremented. Otherwise the lookup goes to the prototype.

  \<^item> With \<^verbatim>\<open>Object.prototype\<close> as the prototype, \<^verbatim>\<open>s[k]\<close> is \<^verbatim>\<open>undefined\<close> or, for an
    inherited name (\<^verbatim>\<open>constructor\<close>, \<^verbatim>\<open>toString\<close>, \<^verbatim>\<open>__proto__\<close>, ...), a built-in object;
    the increment then writes a property \<^verbatim>\<open>f\<close> of that built-in, which no lookup below reads
    as truthy (its value is \<^verbatim>\<open>NaN\<close>), and \<^verbatim>\<open>s\<close> stays as it is.
  \<^item> With a counter object \<open>o\<close> as the prototype, \<^verbatim>\<open>s['__proto__']\<close> is \<open>o\<close>, whose field is
    incremented; \<^verbatim>\<open>s['goals']\<close>, \<^verbatim>\<open>s['assists']\<close> and \<^verbatim>\<open>s['matches']\<close> are the numbers held
    by \<open>o\<close>, falsy when zero, and the increment of a property of a non-zero number raises
    \<^verbatim>\<open>TypeError\<close>, the module being strict code; any other name is looked up in
    \<^verbatim>\<open>Object.prototype\<close> as before.
\<close>

definition bump_prop :: "Obj \<Rightarrow> string \<Rightarrow> Field \<Rightarrow> Obj outcome" where
  "bump_prop s k f =
     (if k \<in> fst ` set (own s) then Returns (s\<lparr>own := bump (own s) k (incr_field f)\<rparr>)
      else
        (case proto s of
           None \<Rightarrow> Returns s
         | Some obj \<Rightarrow>
             if k = ''__proto__'' then Returns (s\<lparr>proto := Some (incr_field f obj)\<rparr>)
             else
               (case read_field k obj of
                  None \<Rightarrow> Returns s
                | Some n \<Rightarrow> if n = 0 then Returns s else Throws)))"

text \<open>\<^verbatim>\<open>xs.forEach(x => ...)\<close> with a body that changes \<^verbatim>\<open>s\<close>; an exception ends the loop.\<close>

fun each :: "('s \<Rightarrow> 'a \<Rightarrow> 's outcome) \<Rightarrow> 's \<Rightarrow> 'a list \<Rightarrow> 's outcome" where
  "each body s [] = Returns s"
| "each body s (x # xs) =
     (case body s x of Throws \<Rightarrow> Throws | Returns s' \<Rightarrow> each body s' xs)"

text \<open>
  \<^verbatim>\<open>Object.entries\<close> lists the own keys that are array indices (canonical decimal numerals
  below \<open>2^32 - 1\<close>) first, in ascending numeric order, and then all other own keys in
  creation order. A clock reading in milliseconds is far above that bound.
\<close>

definition is_digit :: "char \<Rightarrow> bool" where
  "is_digit c = (c \<in> set ''0123456789'')"

definition decimal :: "string \<Rightarrow> int" where
  "decimal k = foldl (\<lambda>n c. 10 * n + (of_char c - 48)) 0 k"

definition array_index :: "string \<Rightarrow> int option" where
  "array_index k =
     (if k \<noteq> [] \<and> list_all is_digit k \<and> (k = ''0'' \<or> hd k \<noteq> CHR ''0'')
         \<and> decimal k < 4294967295
      then Some (decimal k) else None)"

definition object_entries :: "(string \<times> 'v) list \<Rightarrow> (string \<times> 'v) list" where
  "object_entries s =
     sort_key (\<lambda>(k, v). case array_index k of None \<Rightarrow> 0 | Some n \<Rightarrow> n)
       (filter (\<lambda>(k, v). array_index k \<noteq> None) s)
     @ filter (\<lambda>(k, v). array_index k = None) s"

text \<open>JavaScript truthiness of an optional string: absent and empty are false.\<close>

definition truthy :: "string option \<Rightarrow> bool" where
  "truthy x = (case x of None \<Rightarrow> False | Some k \<Rightarrow> k \<noteq> [])"

definition seed :: "Player list \<Rightarrow> Obj" where
  "seed players =
     foldl (\<lambda>s p. set_prop s (p_id p)
              \<lparr>goals = num (initialGoals p), assists = num (initialAssists p),
               matches = num (initialMatches p)\<rparr>) \<lparr>own = [], proto = None\<rparr> players"

definition count_event :: "Obj \<Rightarrow> MatchEvent \<Rightarrow> Obj outcome" where
  "count_event s e =
     (case (if e_type e = GOAL then bump_prop s (playerId e) Goals else Returns s) of
        Throws \<Rightarrow> Throws
      | Returns s1 \<Rightarrow>
          if e_type e = GOAL \<and> truthy (assistPlayerId e)
          then bump_prop s1 (case assistPlayerId e of Some a \<Rightarrow> a | None \<Rightarrow> []) Assists
          else Returns s1)"

definition count_match :: "Obj \<Rightarrow> Match \<Rightarrow> Obj outcome" where
  "count_match s match =
     (case each (\<lambda>s pid. bump_prop s pid Matches) s (homePlayerIds match @ awayPlayerIds match) of
        Throws \<Rightarrow> Throws
      | Returns s1 \<Rightarrow> each count_event s1 (events match))"

definition stats_outcome :: "Player list \<Rightarrow> Match list \<Rightarrow> Stat list outcome" where
  "stats_outcome players ms =
     (case each count_match (seed players) (filter isFinished ms) of
        Throws \<Rightarrow> Throws
      | Returns s \<Rightarrow>
          Returns (js_sort (\<lambda>a b. goals b - goals a)
            (map (\<lambda>(k, data).
                    \<lparr>goals = goals data, assists = assists data, matches = matches data,
                     stat_id = k, stat_player = find (\<lambda>p. p_id p = k) players\<rparr>)
               (object_entries (own s)))))"

text \<open>
  The views read the memo as a list of rows. When the computation raises there is no list
  and nothing of the page is rendered: no rows.
\<close>

definition stats :: "Player list \<Rightarrow> Match list \<Rightarrow> Stat list" where
  "stats players ms = (case stats_outcome players ms of Throws \<Rightarrow> [] | Returns rows \<Rightarrow> rows)"

text \<open>The variant without matches reads the baselines only and sorts with a two-tier comparator.\<close>

record PStat =
  ps_id :: string
  ps_player :: Player
  ps_goals :: int
  ps_assists :: int
  ps_saves :: int
  ps_clearances :: int
  ps_matches :: int
  ga :: int

definition compare_stats :: "PStat \<Rightarrow> PStat \<Rightarrow> int" where
  "compare_stats a b =
     (if position (ps_player a) = GK \<and> position (ps_player b) = GK
      then ps_saves b - ps_saves a
      else ps_goals b - ps_goals a)"

definition player_stat :: "Player \<Rightarrow> PStat" where
  "player_stat p =
     (let goals = num (initialGoals p); assists = num (initialAssists p);
          saves = num (initialSaves p); clearances = num (initialClearances p)
      in \<lparr>ps_id = p_id p, ps_player = p, ps_goals = goals, ps_assists = assists,
          ps_saves = saves, ps_clearances = clearances,
          ps_matches = num (initialMatches p), ga = goals + assists\<rparr>)"

definition stats_players_only :: "Player list \<Rightarrow> PStat list" where
  "stats_players_only players = js_sort compare_stats (map player_stat players)"

subsection \<open>What the specification says about the leaderboard\<close>












text \<open>The order the specification asks of the leaderboard, pair by pair.\<close>

definition precedes_ok :: "PStat \<Rightarrow> PStat \<Rightarrow> bool" where
  "precedes_ok a b =
     (if position (ps_player a) = GK \<and> position (ps_player b) = GK
      then ps_saves a \<ge> ps_saves b
      else ps_goals a \<ge> ps_goals b)"

definition leaderboard_ordered :: "PStat list \<Rightarrow> bool" where
  "leaderboard_ordered xs = sorted_wrt precedes_ok xs"

definition transitive_on :: "PStat list \<Rightarrow> bool" where
  "transitive_on xs =
     list_all (\<lambda>a. list_all (\<lambda>b. list_all (\<lambda>c.
        precedes_ok a b \<and> precedes_ok b c \<longrightarrow> precedes_ok a c) xs) xs) xs"

text \<open>Three players on whom the two-tier comparison runs in a circle.\<close>

definition gk_one :: Player where
  "gk_one = mk_player ''1'' ''Uno'' GK 0 10"

definition gk_two :: Player where
  "gk_two = mk_player ''2'' ''Dos'' GK 9 1"

definition fwd_three :: Player where
  "fwd_three = mk_player ''3'' ''Tres'' FWD 5 0"

section \<open>Narrative generator (services/geminiService.ts)\<close>

text \<open>
  JavaScript strings are lists of code units; every character the service uses lies in
  Latin-1, so one \<open>char\<close> stands for one code unit and the accented letters are written
  by their code.
\<close>

definition nl :: string where
  "nl = [CHR 0x0A]"

fun digits_of :: "nat \<Rightarrow> string" where
  "digits_of n =
     (if n < 10 then [''0123456789'' ! n]
      else digits_of (n div 10) @ [''0123456789'' ! (n mod 10)])"

declare digits_of.simps [simp del]

text \<open>The text of an integral JavaScript number (below the magnitude where exponents appear).\<close>

definition number_text :: "int \<Rightarrow> string" where
  "number_text i = (if i < 0 then CHR ''-'' # digits_of (nat (- i)) else digits_of (nat i))"

fun event_type_text :: "EventType \<Rightarrow> string" where
  "event_type_text GOAL = ''Gol''"
| "event_type_text ASSIST = ''Asistencia''"
| "event_type_text YELLOW_CARD = ''Tarjeta Amarilla''"
| "event_type_text RED_CARD = ''Tarjeta Roja''"
| "event_type_text SAVE = ''Atajada''"
| "event_type_text SUBSTITUTION = ''Sustituci'' @ [CHR 0xF3] @ ''n''"

fun join :: "string \<Rightarrow> string list \<Rightarrow> string" where
  "join sep [] = []"
| "join sep [x] = x"
| "join sep (x # y # ys) = x @ sep @ join sep (y # ys)"

definition getName :: "Player list \<Rightarrow> string \<Rightarrow> string" where
  "getName allPlayers ident =
     (case find (\<lambda>p. p_id p = ident) allPlayers of
        None \<Rightarrow> ''Jugador Desconocido''
      | Some p \<Rightarrow> if p_name p = [] then ''Jugador Desconocido'' else p_name p)"

definition event_line :: "Match \<Rightarrow> Player list \<Rightarrow> MatchEvent \<Rightarrow> string" where
  "event_line match allPlayers e =
     (let playerName = getName allPlayers (playerId e);
          teamName = (if side e = home then homeTeamName match else awayTeamName match);
          detail = event_type_text (e_type e)
            @ (if e_type e = GOAL \<and> truthy (assistPlayerId e)
               then '' (Asistencia: ''
                    @ getName allPlayers (case assistPlayerId e of Some a \<Rightarrow> a | None \<Rightarrow> [])
                    @ '')''
               else [])
      in ''- Min '' @ number_text (minute e) @ '': '' @ detail @ '' por '' @ playerName
         @ '' para '' @ teamName)"

definition build_prompt :: "Match \<Rightarrow> Player list \<Rightarrow> string" where
  "build_prompt match allPlayers =
     (let eventsList = join nl (map (event_line match allPlayers) (events match))
      in nl @ ''    Act'' @ [CHR 0xFA] @ ''a como un narrador de f'' @ [CHR 0xFA]
         @ ''tbol de barrio apasionado pero anal'' @ [CHR 0xED] @ ''tico. Escribe la cr''
         @ [CHR 0xF3] @ ''nica de este partido amistoso/amateur.'' @ nl @ ''    '' @ nl
         @ ''    EQUIPOS: '' @ homeTeamName match @ '' vs '' @ awayTeamName match @ nl
         @ ''    MARCADOR FINAL: '' @ number_text (homeScore match) @ '' - ''
         @ number_text (awayScore match) @ nl @ ''    '' @ nl
         @ ''    JUGADORES DESTACADOS (Goleadores):'' @ nl @ ''    ''
         @ join '', '' (map (\<lambda>e. getName allPlayers (playerId e)) (filter (\<lambda>e. e_type e = GOAL) (events match)))
         @ nl @ ''    '' @ nl @ ''    CRONOLOG'' @ [CHR 0xCD] @ ''A:'' @ nl @ ''    ''
         @ eventsList @ nl @ ''    '' @ nl @ ''    ESTRUCTURA:'' @ nl
         @ ''    1. **Titular**: Divertido o '' @ [CHR 0xC9] @ ''pico.'' @ nl
         @ ''    2. **Resumen**: C'' @ [CHR 0xF3] @ ''mo se sinti'' @ [CHR 0xF3]
         @ '' el partido.'' @ nl @ ''    3. **El MVP**: Qui'' @ [CHR 0xE9] @ ''n se luci''
         @ [CHR 0xF3] @ '' m'' @ [CHR 0xE1] @ ''s (b'' @ [CHR 0xE1]
         @ ''sate en goles/asistencias).'' @ nl @ ''    4. **El Dato**: Alguna estad''
         @ [CHR 0xED] @ ''stica curiosa o t'' @ [CHR 0xE1] @ ''ctica simple.'' @ nl @ nl
         @ ''    Formato Markdown. Tono cercano, futbolero espa'' @ [CHR 0xF1] @ ''ol.'' @ nl
         @ ''  '')"

text \<open>
  The client \<^verbatim>\<open>ai\<close> is absent when no API key is configured. A present client is the
  service as seen from the call \<^verbatim>\<open>ai.models.generateContent\<close>: given the prompt it throws,
  or returns a response whose \<^verbatim>\<open>text\<close> may be missing. The result of the generator is
  paired with the list of prompts that were sent to the service.
\<close>

type_synonym GoogleGenAI = "string \<Rightarrow> string option outcome"

definition generateMatchReport ::
  "GoogleGenAI option \<Rightarrow> Match \<Rightarrow> Player list \<Rightarrow> string outcome \<times> string list" where
  "generateMatchReport ai match allPlayers =
     (case ai of
        None \<Rightarrow> (Returns ''API Key no configurada. No se puede generar el reporte.'', [])
      | Some generateContent \<Rightarrow>
          (let prompt = build_prompt match allPlayers
           in (case generateContent prompt of
                 Returns response_text \<Rightarrow>
                   Returns (if truthy response_text
                            then (case response_text of Some t \<Rightarrow> t | None \<Rightarrow> [])
                            else ''No se pudo generar el an'' @ [CHR 0xE1] @ ''lisis.'')
               | Throws \<Rightarrow> Returns ''Error al conectar con la IA para generar el reporte.'',
               [prompt])))"

section \<open>Match lifecycle (App.tsx)\<close>

text \<open>
  The state of the component together with the persisted collections, for one session at a
  time (one open page). Clock readings (\<^verbatim>\<open>Date.now()\<close>, \<^verbatim>\<open>new Date()\<close>), the random draw and
  the replies of the hosted store are arguments. The handlers \<^verbatim>\<open>startMatch\<close>, \<^verbatim>\<open>addEvent\<close>
  and \<^verbatim>\<open>finishMatch\<close> are asynchronous: each works on the state of the render in which it
  was called, awaits the gateway, and sets state afterwards. The functions of these names
  below are the handlers run from the call to the end with nothing in between; their parts
  before and after the \<^verbatim>\<open>await\<close> follow further down, for the sessions in which something
  else happens in between.
\<close>

datatype Tab = dashboard | players_tab | matches_tab | draft | live

record State =
  activeTab :: Tab
  s_players :: "Player list"
  s_matches :: "Match list"
  draftHomeName :: string
  draftAwayName :: string
  draftHomeIds :: "string list"
  draftAwayIds :: "string list"
  activeMatchId :: "string option"
  generatingReport :: bool
  world :: Db

definition loadData :: "bool \<Rightarrow> reply \<Rightarrow> reply \<Rightarrow> Db \<Rightarrow> State" where
  "loadData cfg r1 r2 store =
     (let loadedPlayers = getAllPlayers cfg r1 store;
          loadedMatches = getAllMatches cfg r2 store;
          unfinished = find (\<lambda>m. \<not> isFinished m) loadedMatches
      in \<lparr>activeTab = dashboard, s_players = loadedPlayers, s_matches = loadedMatches,
          draftHomeName = ''Equipo A'', draftAwayName = ''Equipo B'',
          draftHomeIds = [], draftAwayIds = [],
          activeMatchId = (case unfinished of None \<Rightarrow> None | Some m \<Rightarrow> Some (m_id m)),
          generatingReport = False, world = store\<rparr>)"

definition toggleDraftSelection :: "string \<Rightarrow> Side \<Rightarrow> State \<Rightarrow> State" where
  "toggleDraftSelection pid sd s =
     (let cleanHome = filter (\<lambda>i. i \<noteq> pid) (draftHomeIds s);
          cleanAway = filter (\<lambda>i. i \<noteq> pid) (draftAwayIds s)
      in if sd = home then
           (if pid \<in> set (draftHomeIds s) then s\<lparr>draftHomeIds := cleanHome\<rparr>
            else s\<lparr>draftHomeIds := cleanHome @ [pid], draftAwayIds := cleanAway\<rparr>)
         else
           (if pid \<in> set (draftAwayIds s) then s\<lparr>draftAwayIds := cleanAway\<rparr>
            else s\<lparr>draftAwayIds := cleanAway @ [pid], draftHomeIds := cleanHome\<rparr>))"

definition startMatch :: "bool \<Rightarrow> reply \<Rightarrow> nat \<Rightarrow> int \<Rightarrow> State \<Rightarrow> State" where
  "startMatch cfg r now stamp s =
     (if draftHomeIds s = [] \<or> draftAwayIds s = [] then s
      else
        (let newMatch =
               \<lparr>m_id = digits_of now,
                homeTeamName = (if draftHomeName s = [] then ''Equipo A'' else draftHomeName s),
                awayTeamName = (if draftAwayName s = [] then ''Equipo B'' else draftAwayName s),
                homePlayerIds = draftHomeIds s, awayPlayerIds = draftAwayIds s,
                homeScore = 0, awayScore = 0, date = stamp, isFinished = False,
                events = [], aiAnalysis = None\<rparr>
         in s\<lparr>world := addMatch cfg r newMatch (world s),
               s_matches := newMatch # s_matches s,
               activeMatchId := Some (m_id newMatch),
               activeTab := live\<rparr>))"

definition activeMatch :: "State \<Rightarrow> Match option" where
  "activeMatch s = find (\<lambda>m. Some (m_id m) = activeMatchId s) (s_matches s)"

text \<open>
  \<^verbatim>\<open>Math.floor(Math.random() * 90) + 1\<close>. The draw and the product are doubles in the code
  and reals here; rounding does not change the floor at the upper end, the product of 90
  and the largest double below one being rounded to a double below 90.
\<close>

definition minute_of :: "real \<Rightarrow> int" where
  "minute_of rnd = \<lfloor>rnd * 90\<rfloor> + 1"

definition addEvent ::
  "bool \<Rightarrow> reply \<Rightarrow> nat \<Rightarrow> nat \<Rightarrow> real \<Rightarrow> EventType \<Rightarrow> Side \<Rightarrow> string \<Rightarrow> State \<Rightarrow> State" where
  "addEvent cfg r now1 now2 rnd ty sd pid s =
     (case activeMatch s of
        None \<Rightarrow> s
      | Some am \<Rightarrow>
          (let newEvent =
                 \<lparr>e_id = digits_of now1, matchId = m_id am, side = sd, playerId = pid,
                  assistPlayerId = None, e_type = ty, minute = minute_of rnd,
                  timestamp = int now2\<rparr>;
               updatedHomeScore =
                 (if ty = GOAL \<and> sd = home then incr (homeScore am) else homeScore am);
               updatedAwayScore =
                 (if ty = GOAL \<and> sd \<noteq> home then incr (awayScore am) else awayScore am);
               updatedMatch = am\<lparr>homeScore := updatedHomeScore, awayScore := updatedAwayScore,
                                 events := newEvent # events am\<rparr>
           in s\<lparr>world := updateMatch cfg r updatedMatch (world s),
                 s_matches := map (\<lambda>m. if m_id m = m_id am then updatedMatch else m)
                                (s_matches s)\<rparr>))"

definition finishMatch :: "bool \<Rightarrow> GoogleGenAI option \<Rightarrow> reply \<Rightarrow> State \<Rightarrow> State" where
  "finishMatch cfg ai r s =
     (case activeMatch s of
        None \<Rightarrow> s
      | Some am \<Rightarrow>
          (case fst (generateMatchReport ai am (s_players s)) of
             Throws \<Rightarrow> s\<lparr>generatingReport := True\<rparr>
           | Returns report \<Rightarrow>
               (let finishedMatch = am\<lparr>isFinished := True, aiAnalysis := Some report\<rparr>
                in s\<lparr>world := updateMatch cfg r finishedMatch (world s),
                      s_matches := map (\<lambda>m. if m_id m = m_id am then finishedMatch else m)
                                     (s_matches s),
                      activeMatchId := None,
                      generatingReport := False,
                      draftHomeIds := [], draftAwayIds := [],
                      activeTab := matches_tab\<rparr>)))"

text \<open>
  The parts of the three handlers. The part before the \<^verbatim>\<open>await\<close> reads the state of the
  render and builds the entity that is sent to the gateway (\<open>None\<close>: the handler returns at
  its guard). The part after the \<^verbatim>\<open>await\<close> calls the setters with values of the render in
  which the handler was called (\<^verbatim>\<open>matches\<close>, \<^verbatim>\<open>activeMatch\<close>), whatever the state has become
  in the meantime.
\<close>

definition startMatch_request :: "nat \<Rightarrow> int \<Rightarrow> State \<Rightarrow> Match option" where
  "startMatch_request now stamp s =
     (if draftHomeIds s = [] \<or> draftAwayIds s = [] then None
      else Some
        \<lparr>m_id = digits_of now,
         homeTeamName = (if draftHomeName s = [] then ''Equipo A'' else draftHomeName s),
         awayTeamName = (if draftAwayName s = [] then ''Equipo B'' else draftAwayName s),
         homePlayerIds = draftHomeIds s, awayPlayerIds = draftAwayIds s,
         homeScore = 0, awayScore = 0, date = stamp, isFinished = False,
         events = [], aiAnalysis = None\<rparr>)"

definition startMatch_resume :: "Match \<Rightarrow> Match list \<Rightarrow> State \<Rightarrow> State" where
  "startMatch_resume newMatch ms s =
     s\<lparr>s_matches := newMatch # ms, activeMatchId := Some (m_id newMatch), activeTab := live\<rparr>"

definition addEvent_request ::
  "nat \<Rightarrow> nat \<Rightarrow> real \<Rightarrow> EventType \<Rightarrow> Side \<Rightarrow> string \<Rightarrow> State \<Rightarrow> (Match \<times> Match) option" where
  "addEvent_request now1 now2 rnd ty sd pid s =
     (case activeMatch s of
        None \<Rightarrow> None
      | Some am \<Rightarrow>
          (let newEvent =
                 \<lparr>e_id = digits_of now1, matchId = m_id am, side = sd, playerId = pid,
                  assistPlayerId = None, e_type = ty, minute = minute_of rnd,
                  timestamp = int now2\<rparr>;
               updatedHomeScore =
                 (if ty = GOAL \<and> sd = home then incr (homeScore am) else homeScore am);
               updatedAwayScore =
                 (if ty = GOAL \<and> sd \<noteq> home then incr (awayScore am) else awayScore am)
           in Some (am, am\<lparr>homeScore := updatedHomeScore, awayScore := updatedAwayScore,
                            events := newEvent # events am\<rparr>)))"

definition addEvent_resume :: "Match \<Rightarrow> Match \<Rightarrow> Match list \<Rightarrow> State \<Rightarrow> State" where
  "addEvent_resume am updatedMatch ms s =
     s\<lparr>s_matches := map (\<lambda>m. if m_id m = m_id am then updatedMatch else m) ms\<rparr>"

definition finishMatch_resume :: "Match \<Rightarrow> Match \<Rightarrow> Match list \<Rightarrow> State \<Rightarrow> State" where
  "finishMatch_resume am finishedMatch ms s =
     s\<lparr>s_matches := map (\<lambda>m. if m_id m = m_id am then finishedMatch else m) ms,
       activeMatchId := None,
       generatingReport := False,
       draftHomeIds := [], draftAwayIds := [],
       activeTab := matches_tab\<rparr>"

text \<open>
  A handler that awaits, with what it holds of its render: the new match and \<^verbatim>\<open>matches\<close>;
  the active match, the updated match and \<^verbatim>\<open>matches\<close>; the active match, \<^verbatim>\<open>players\<close> and
  \<^verbatim>\<open>matches\<close> while the report is awaited; the active match, the finished match and
  \<^verbatim>\<open>matches\<close> while its update is awaited.
\<close>

datatype Task =
    Starting Match "Match list"
  | Recording Match Match "Match list"
  | Reporting Match "Player list" "Match list"
  | Finishing Match Match "Match list"

text \<open>
  What the rendered page offers. The buttons that open the team selection are rendered
  only while \<^verbatim>\<open>activeMatchId\<close> is falsy, those that open the live view only while it is
  truthy; the start button belongs to the team selection, the event and finish buttons to
  the live view of an existing active match, with event buttons (goal, assist) for the
  listed players of each side.
\<close>

definition tab_offered :: "State \<Rightarrow> Tab \<Rightarrow> bool" where
  "tab_offered s t =
     (case t of draft \<Rightarrow> \<not> truthy (activeMatchId s)
              | live \<Rightarrow> truthy (activeMatchId s)
              | _ \<Rightarrow> True)"

definition event_offered :: "State \<Rightarrow> EventType \<Rightarrow> Side \<Rightarrow> string \<Rightarrow> bool" where
  "event_offered s ty sd pid =
     (activeTab s = live \<and> (ty = GOAL \<or> ty = ASSIST)
      \<and> (case activeMatch s of
            None \<Rightarrow> False
          | Some am \<Rightarrow> pid \<in> p_id ` set (s_players s)
              \<and> pid \<in> set (if sd = home then homePlayerIds am else awayPlayerIds am)))"

definition persisted_matches :: "bool \<Rightarrow> Db \<Rightarrow> Match list" where
  "persisted_matches cfg store =
     (if cfg then map snd (tbl_matches store) else stored_matches store)"

text \<open>
  The states a session can reach from the persisted collections \<open>store\<close>, each with the
  handlers that are awaiting: loading (again after every reload of the page, which ends
  the handlers of the page before), navigation, team selection, and the three handlers of
  the match, each in its steps. A request takes effect on the store when it is sent; its
  reply lets the handler go on at some later step. The start and event buttons are never
  disabled and the finish button only while the report is generated, so the page accepts
  user actions while handlers await; the flag \<open>overlap\<close> says whether the user takes
  any. The flag \<open>faults\<close> says whether calls to the hosted store may be answered with an
  error (browser-local storage has no replies to read). A start reads the clock for the
  identifier of the new match, which is taken not to be among the persisted ones. The
  handlers of the player page change the player list and the player collection only and
  are left out.
\<close>

inductive reachable :: "bool \<Rightarrow> bool \<Rightarrow> bool \<Rightarrow> Db \<Rightarrow> State \<Rightarrow> Task list \<Rightarrow> bool"
  for cfg :: bool and faults :: bool and overlap :: bool and store :: Db where
  load: "faults \<or> (r1 = Ok \<and> r2 = Ok)
     \<Longrightarrow> reachable cfg faults overlap store (loadData cfg r1 r2 store) []"
| reload: "reachable cfg faults overlap store s ts \<Longrightarrow> overlap \<or> ts = []
     \<Longrightarrow> faults \<or> (r1 = Ok \<and> r2 = Ok)
     \<Longrightarrow> reachable cfg faults overlap store (loadData cfg r1 r2 (world s)) []"
| navigate: "reachable cfg faults overlap store s ts \<Longrightarrow> overlap \<or> ts = []
     \<Longrightarrow> tab_offered s t
     \<Longrightarrow> reachable cfg faults overlap store (s\<lparr>activeTab := t\<rparr>) ts"
| rename_home: "reachable cfg faults overlap store s ts \<Longrightarrow> overlap \<or> ts = []
     \<Longrightarrow> activeTab s = draft
     \<Longrightarrow> reachable cfg faults overlap store (s\<lparr>draftHomeName := n\<rparr>) ts"
| rename_away: "reachable cfg faults overlap store s ts \<Longrightarrow> overlap \<or> ts = []
     \<Longrightarrow> activeTab s = draft
     \<Longrightarrow> reachable cfg faults overlap store (s\<lparr>draftAwayName := n\<rparr>) ts"
| toggle: "reachable cfg faults overlap store s ts \<Longrightarrow> overlap \<or> ts = []
     \<Longrightarrow> activeTab s = draft
     \<Longrightarrow> pid \<in> p_id ` set (s_players s)
     \<Longrightarrow> reachable cfg faults overlap store (toggleDraftSelection pid sd s) ts"
| start_called: "reachable cfg faults overlap store s ts \<Longrightarrow> overlap \<or> ts = []
     \<Longrightarrow> activeTab s = draft
     \<Longrightarrow> startMatch_request now stamp s = Some newMatch
     \<Longrightarrow> m_id newMatch \<notin> m_id ` set (persisted_matches cfg (world s))
     \<Longrightarrow> faults \<or> r = Ok
     \<Longrightarrow> reachable cfg faults overlap store
           (s\<lparr>world := addMatch cfg r newMatch (world s)\<rparr>)
           (ts @ [Starting newMatch (s_matches s)])"
| start_resumed: "reachable cfg faults overlap store s ts \<Longrightarrow> Starting newMatch ms \<in> set ts
     \<Longrightarrow> reachable cfg faults overlap store
           (startMatch_resume newMatch ms s) (remove1 (Starting newMatch ms) ts)"
| event_called: "reachable cfg faults overlap store s ts \<Longrightarrow> overlap \<or> ts = []
     \<Longrightarrow> event_offered s ty sd pid
     \<Longrightarrow> 0 \<le> rnd \<Longrightarrow> rnd < 1
     \<Longrightarrow> addEvent_request now1 now2 rnd ty sd pid s = Some (am, updatedMatch)
     \<Longrightarrow> faults \<or> r = Ok
     \<Longrightarrow> reachable cfg faults overlap store
           (s\<lparr>world := updateMatch cfg r updatedMatch (world s)\<rparr>)
           (ts @ [Recording am updatedMatch (s_matches s)])"
| event_resumed: "reachable cfg faults overlap store s ts
     \<Longrightarrow> Recording am updatedMatch ms \<in> set ts
     \<Longrightarrow> reachable cfg faults overlap store
           (addEvent_resume am updatedMatch ms s) (remove1 (Recording am updatedMatch ms) ts)"
| finish_called: "reachable cfg faults overlap store s ts \<Longrightarrow> overlap \<or> ts = []
     \<Longrightarrow> activeTab s = live \<Longrightarrow> activeMatch s = Some am
     \<Longrightarrow> \<not> generatingReport s
     \<Longrightarrow> reachable cfg faults overlap store
           (s\<lparr>generatingReport := True\<rparr>)
           (ts @ [Reporting am (s_players s) (s_matches s)])"
| finish_reported: "reachable cfg faults overlap store s ts
     \<Longrightarrow> Reporting am ps ms \<in> set ts
     \<Longrightarrow> fst (generateMatchReport ai am ps) = Returns report
     \<Longrightarrow> faults \<or> r = Ok
     \<Longrightarrow> reachable cfg faults overlap store
           (s\<lparr>world := updateMatch cfg r (am\<lparr>isFinished := True, aiAnalysis := Some report\<rparr>)
                        (world s)\<rparr>)
           (remove1 (Reporting am ps ms) ts
              @ [Finishing am (am\<lparr>isFinished := True, aiAnalysis := Some report\<rparr>) ms])"
| finish_resumed: "reachable cfg faults overlap store s ts
     \<Longrightarrow> Finishing am finishedMatch ms \<in> set ts
     \<Longrightarrow> reachable cfg faults overlap store
           (finishMatch_resume am finishedMatch ms s) (remove1 (Finishing am finishedMatch ms) ts)"

definition unfinished :: "Match list \<Rightarrow> Match list" where
  "unfinished ms = filter (\<lambda>m. \<not> isFinished m) ms"

definition single_active :: "Match list \<Rightarrow> bool" where
  "single_active ms = (length (unfinished ms) \<le> 1)"

text \<open>Every row of the hosted table is keyed by the identifier of the match it holds.\<close>

definition keyed :: "(string \<times> Match) list \<Rightarrow> bool" where
  "keyed rows = list_all (\<lambda>(k, json). k = m_id json) rows"


text \<open>
  The invariant behind the single active match: persisted identifiers are distinct and
  non-empty, every persisted unfinished match is the one the session tracks as active, and
  the team selection is open only while no match is tracked.
\<close>

definition lifecycle_inv :: "bool \<Rightarrow> State \<Rightarrow> bool" where
  "lifecycle_inv cfg s =
     (distinct (map m_id (persisted_matches cfg (world s)))
      \<and> [] \<notin> set (map m_id (persisted_matches cfg (world s)))
      \<and> (\<forall>m\<in>set (persisted_matches cfg (world s)).
            \<not> isFinished m \<longrightarrow> activeMatchId s = Some (m_id m))
      \<and> (activeTab s = draft \<longrightarrow> \<not> truthy (activeMatchId s))
      \<and> (cfg \<longrightarrow> keyed (tbl_matches (world s))))"


text \<open>
  A session on the hosted store in which the update of \<^verbatim>\<open>finishMatch\<close> is answered with an
  error: two players are loaded, a match is started at clock reading 1000 and finished,
  and a second match is started at 2000.
\<close>

definition remote_db :: Db where
  "remote_db = empty_db\<lparr>tbl_players := [(''1'', ana), (''2'', beto)]\<rparr>"

definition pick_teams :: "State \<Rightarrow> State" where
  "pick_teams s =
     toggleDraftSelection ''2'' away (toggleDraftSelection ''1'' home (s\<lparr>activeTab := draft\<rparr>))"

definition remote_loaded :: State where
  "remote_loaded = loadData True Ok Ok remote_db"

definition first_match_live :: State where
  "first_match_live = startMatch True Ok 1000 1000 (pick_teams remote_loaded)"



text \<open>
  Sessions without errors in which the user acts while a handler awaits. In the first the
  start button is pressed again, one clock tick later, before the first start has set
  state. In the second two goals are recorded in the first match, the second before the
  first recording has set state.
\<close>

definition double_start :: State where
  "double_start =
     (pick_teams remote_loaded)
       \<lparr>world := addMatch True Ok (mk_match ''1001'' 1001 False)
                   (addMatch True Ok (mk_match ''1000'' 1000 False) remote_db)\<rparr>"

definition overlapped_goals :: State where
  "overlapped_goals =
     (case (addEvent_request 1001 1001 (1/2) GOAL home ''1'' first_match_live,
            addEvent_request 1002 1002 (1/2) GOAL home ''1'' first_match_live) of
        (Some (am1, um1), Some (am2, um2)) \<Rightarrow>
          addEvent_resume am2 um2 (s_matches first_match_live)
            (addEvent_resume am1 um1 (s_matches first_match_live)
               (first_match_live
                  \<lparr>world := updateMatch True Ok um2
                              (updateMatch True Ok um1 (world first_match_live))\<rparr>))
      | _ \<Rightarrow> first_match_live)"

text \<open>A session on browser-local storage: two players are loaded and a match is started.\<close>

definition local_db :: Db where
  "local_db = empty_db\<lparr>ls_players := Some [ana, beto]\<rparr>"

definition local_loaded :: State where
  "local_loaded = loadData False Ok Ok local_db"

definition local_live :: State where
  "local_live = startMatch False Ok 1000 1000 (pick_teams local_loaded)"

text \<open>A session that resumes a stored match whose home score is \<open>2^53\<close>.\<close>

definition high_score_db :: Db where
  "high_score_db =
     empty_db\<lparr>ls_players := Some [ana, beto],
              ls_matches := Some [(mk_match ''9'' 1 False)\<lparr>homeScore := 9007199254740992\<rparr>]\<rparr>"

definition high_score_live :: State where
  "high_score_live = (loadData False Ok Ok high_score_db)\<lparr>activeTab := live\<rparr>"

section \<open>Lemmas about the array helpers\<close>

lemma js_sort_by_date: "js_sort by_date_desc xs = sort_key (\<lambda>m. - date m) xs"
proof -
  have "insort_by by_date_desc x ys = insort_key (\<lambda>m. - date m) x ys" for x ys
    by (induction ys) (auto simp: by_date_desc_def)
  then have "insort_by by_date_desc = insort_key (\<lambda>m. - date m)" by (intro ext)
  then show ?thesis by (simp add: js_sort_def sort_key_def)
qed

lemma date_descending_iff: "date_descending ms = sorted (map (\<lambda>m. - date m) ms)"
  by (simp add: date_descending_def sorted_map)

lemma date_descending_js_sort: "date_descending (js_sort by_date_desc xs)"
  by (simp add: date_descending_iff js_sort_by_date)

lemma mset_js_sort_date: "mset (js_sort by_date_desc xs) = mset xs"
  by (simp add: js_sort_by_date)

lemma js_sort_date_id: "date_descending xs \<Longrightarrow> js_sort by_date_desc xs = xs"
  by (simp add: date_descending_iff js_sort_by_date sort_key_id_if_sorted)

lemma filter_js_sort_date: "filter P (js_sort by_date_desc xs) = js_sort by_date_desc (filter P xs)"
  by (simp add: js_sort_by_date filter_sort)

lemma findIndex_None: "findIndex P xs = None \<longleftrightarrow> (\<forall>x\<in>set xs. \<not> P x)"
  by (induction xs) auto

lemma findIndex_Some: "findIndex P xs = Some i \<Longrightarrow> i < length xs \<and> P (xs ! i) \<and> (\<forall>j<i. \<not> P (xs ! j))"
proof (induction xs arbitrary: i)
  case Nil then show ?case by simp
next
  case (Cons x xs)
  show ?case
  proof (cases "P x")
    case True with Cons.prems show ?thesis by simp
  next
    case False
    with Cons.prems obtain k where k: "findIndex P xs = Some k" "i = Suc k" by auto
    from Cons.IH[OF k(1)] False k(2) show ?thesis
      by (auto simp: less_Suc_eq_0_disj)
  qed
qed

lemma findIndex_update: "findIndex P xs = Some i \<Longrightarrow> P e \<Longrightarrow> findIndex P (xs[i := e]) = Some i"
  by (induction xs arbitrary: i) (auto split: if_splits)

lemma filter_update_other: "findIndex P xs = Some i \<Longrightarrow> P e \<Longrightarrow> filter (\<lambda>x. \<not> P x) (xs[i := e]) = filter (\<lambda>x. \<not> P x) xs"
  by (induction xs arbitrary: i) (auto split: if_splits)

lemma findIndex_find: "findIndex P xs = Some i \<Longrightarrow> find P xs = Some (xs ! i)"
  by (induction xs arbitrary: i) (auto split: if_splits)

lemma mset_insort_by: "mset (insort_by c x ys) = add_mset x (mset ys)"
  by (induction ys) auto

lemma mset_js_sort: "mset (js_sort c xs) = mset xs"
  by (induction xs) (auto simp: js_sort_def mset_insort_by)

lemma set_js_sort: "set (js_sort c xs) = set xs"
  using mset_js_sort[of c xs] by (metis set_mset_mset)

lemma length_js_sort: "length (js_sort c xs) = length xs"
  using mset_js_sort[of c xs] by (metis size_mset)

lemma sorted_insort_by:
  assumes tot: "\<And>a b. a \<in> A \<Longrightarrow> b \<in> A \<Longrightarrow> c a b \<le> 0 \<or> c b a \<le> 0"
    and tr: "\<And>a b d. a \<in> A \<Longrightarrow> b \<in> A \<Longrightarrow> d \<in> A \<Longrightarrow> c a b \<le> 0 \<Longrightarrow> c b d \<le> 0 \<Longrightarrow> c a d \<le> 0"
  shows "x \<in> A \<Longrightarrow> set ys \<subseteq> A \<Longrightarrow> sorted_wrt (\<lambda>a b. c a b \<le> 0) ys
         \<Longrightarrow> sorted_wrt (\<lambda>a b. c a b \<le> 0) (insort_by c x ys)"
proof (induction ys)
  case Nil
  then show ?case by simp
next
  case (Cons y ys)
  show ?case
  proof (cases "c x y \<le> 0")
    case True
    have "c x z \<le> 0" if "z \<in> set ys" for z
      using tr[of x y z] True Cons.prems that by auto
    with True Cons.prems show ?thesis by auto
  next
    case False
    then have yx: "c y x \<le> 0" using tot[of x y] Cons.prems by auto
    have "sorted_wrt (\<lambda>a b. c a b \<le> 0) (insort_by c x ys)"
      using Cons by auto
    moreover have "c y z \<le> 0" if "z \<in> set (insort_by c x ys)" for z
    proof -
      from that have "z = x \<or> z \<in> set ys"
        using mset_insort_by[of c x ys] by (metis insert_iff set_mset_add_mset_insert set_mset_mset)
      with yx Cons.prems show ?thesis by auto
    qed
    ultimately show ?thesis using False by auto
  qed
qed

lemma sorted_js_sort:
  assumes tot: "\<And>a b. a \<in> set xs \<Longrightarrow> b \<in> set xs \<Longrightarrow> c a b \<le> 0 \<or> c b a \<le> 0"
    and tr: "\<And>a b d. a \<in> set xs \<Longrightarrow> b \<in> set xs \<Longrightarrow> d \<in> set xs \<Longrightarrow> c a b \<le> 0 \<Longrightarrow> c b d \<le> 0 \<Longrightarrow> c a d \<le> 0"
  shows "sorted_wrt (\<lambda>a b. c a b \<le> 0) (js_sort c xs)"
proof -
  have "set ys \<subseteq> set xs \<Longrightarrow> sorted_wrt (\<lambda>a b. c a b \<le> 0) (js_sort c ys)" for ys
  proof (induction ys)
    case Nil
    then show ?case by (simp add: js_sort_def)
  next
    case (Cons y ys)
    have "sorted_wrt (\<lambda>a b. c a b \<le> 0) (insort_by c y (js_sort c ys))"
    proof (rule sorted_insort_by[where A = "set xs"])
      show "y \<in> set xs" using Cons.prems by simp
      show "set (js_sort c ys) \<subseteq> set xs" using Cons.prems by (simp add: set_js_sort)
      show "sorted_wrt (\<lambda>a b. c a b \<le> 0) (js_sort c ys)" using Cons by simp
    qed (use tot tr in blast)+
    then show ?case by (simp add: js_sort_def)
  qed
  then show ?thesis by simp
qed

section \<open>Lemmas about the persistence gateway\<close>

lemma getAllPlayers_local: "getAllPlayers False r db = stored_players db"
  by (simp add: getAllPlayers_def stored_players_def)

lemma getAllMatches_local: "getAllMatches False r db = js_sort by_date_desc (stored_matches db)"
  by (simp add: getAllMatches_def stored_matches_def)

lemma stored_players_addPlayer: "stored_players (addPlayer False r p db) = stored_players db @ [p]"
  by (simp add: addPlayer_def getAllPlayers_local stored_players_def)

lemma stored_players_deletePlayer:
  "stored_players (deletePlayer False r k db) = filter (\<lambda>p. p_id p \<noteq> k) (stored_players db)"
  by (simp add: deletePlayer_def getAllPlayers_local stored_players_def)

lemma stored_matches_addMatch:
  "stored_matches (addMatch False r m db) = js_sort by_date_desc (stored_matches db) @ [m]"
  by (simp add: addMatch_def getAllMatches_local stored_matches_def)

lemma stored_matches_deleteMatch:
  "stored_matches (deleteMatch False r k db) =
     filter (\<lambda>m. m_id m \<noteq> k) (js_sort by_date_desc (stored_matches db))"
  by (simp add: deleteMatch_def getAllMatches_local stored_matches_def)

lemma stored_players_updatePlayer:
  "stored_players (updatePlayer False r p db) =
     (case findIndex (\<lambda>x. p_id x = p_id p) (stored_players db) of
        None \<Rightarrow> stored_players db
      | Some i \<Rightarrow> (stored_players db)[i := p])"
  by (simp add: updatePlayer_def getAllPlayers_local stored_players_def split: option.splits)

lemma stored_matches_updateMatch:
  "stored_matches (updateMatch False r m db) =
     (case findIndex (\<lambda>x. m_id x = m_id m) (js_sort by_date_desc (stored_matches db)) of
        None \<Rightarrow> stored_matches db
      | Some i \<Rightarrow> (js_sort by_date_desc (stored_matches db))[i := m])"
  by (simp add: updateMatch_def getAllMatches_local stored_matches_def split: option.splits)

lemma set_js_sort_date: "set (js_sort by_date_desc xs) = set xs"
  using mset_js_sort_date[of xs] by (metis set_mset_mset)

lemma date_descending_Nil: "date_descending []"
  by (simp add: date_descending_def)

lemma updatePlayer_twice: "updatePlayer False r p (updatePlayer False r' p db) = updatePlayer False r p db"
proof (cases "findIndex (\<lambda>x. p_id x = p_id p) (stored_players db)")
  case None
  then show ?thesis by (simp add: updatePlayer_def getAllPlayers_local)
next
  case (Some i)
  let ?xs = "stored_players db"
  have 1: "updatePlayer False r' p db = db\<lparr>ls_players := Some (?xs[i := p])\<rparr>" for r'
    using Some by (simp add: updatePlayer_def getAllPlayers_local)
  have 2: "stored_players (db\<lparr>ls_players := Some (?xs[i := p])\<rparr>) = ?xs[i := p]"
    by (simp add: stored_players_def)
  have 3: "findIndex (\<lambda>x. p_id x = p_id p) (?xs[i := p]) = Some i"
    using Some by (simp add: findIndex_update)
  show ?thesis
    unfolding 1 by (simp add: updatePlayer_def getAllPlayers_local 2 3)
qed

lemma date_descending_update:
  assumes "date_descending xs" "i < length xs" "date (xs ! i) = date e"
  shows "date_descending (xs[i := e])"
proof -
  have "map (\<lambda>m. - date m) (xs[i := e]) = map (\<lambda>m. - date m) xs"
    using assms(2,3) by (simp add: map_update list_update_same_conv)
  then show ?thesis using assms(1) by (simp add: date_descending_iff)
qed

lemma updateMatch_twice_sorted:
  assumes "date_descending (stored_matches (updateMatch False r' m db))"
  shows "updateMatch False r m (updateMatch False r' m db) = updateMatch False r' m db"
proof (cases "findIndex (\<lambda>x. m_id x = m_id m) (js_sort by_date_desc (stored_matches db))")
  case None
  then show ?thesis by (simp add: updateMatch_def getAllMatches_local)
next
  case (Some i)
  let ?xs = "js_sort by_date_desc (stored_matches db)"
  have 1: "updateMatch False r' m db = db\<lparr>ls_matches := Some (?xs[i := m])\<rparr>" for r'
    using Some by (simp add: updateMatch_def getAllMatches_local)
  have 2: "stored_matches (db\<lparr>ls_matches := Some (?xs[i := m])\<rparr>) = ?xs[i := m]"
    by (simp add: stored_matches_def)
  have 3: "findIndex (\<lambda>x. m_id x = m_id m) (?xs[i := m]) = Some i"
    using Some by (simp add: findIndex_update)
  have 4: "js_sort by_date_desc (?xs[i := m]) = ?xs[i := m]"
    using assms unfolding 1 2 by (rule js_sort_date_id)
  show ?thesis
    unfolding 1 by (simp add: updateMatch_def getAllMatches_local 2 3 4)
qed

lemma updateMatch_keeps_sorted:
  assumes "keeps_date m (getAllMatches False r db)"
  shows "findIndex (\<lambda>x. m_id x = m_id m) (getAllMatches False r db) \<noteq> None \<Longrightarrow> date_descending (stored_matches (updateMatch False r' m db))"
proof -
  assume "findIndex (\<lambda>x. m_id x = m_id m) (getAllMatches False r db) \<noteq> None"
  then obtain i where i: "findIndex (\<lambda>x. m_id x = m_id m) (js_sort by_date_desc (stored_matches db)) = Some i"
    by (auto simp: getAllMatches_local)
  let ?xs = "js_sort by_date_desc (stored_matches db)"
  from findIndex_find[OF i] assms have d: "date (?xs ! i) = date m"
    by (simp add: getAllMatches_local keeps_date_def)
  from findIndex_Some[OF i] have l: "i < length ?xs" by simp
  have "stored_matches (updateMatch False r' m db) = ?xs[i := m]"
    using i by (simp add: stored_matches_updateMatch)
  then show ?thesis
    using date_descending_update[OF date_descending_js_sort l d] by simp
qed

lemma others_getAllMatches_updateMatch:
  "filter (\<lambda>x. m_id x \<noteq> m_id m) (getAllMatches False r' (updateMatch False r m db))
     = filter (\<lambda>x. m_id x \<noteq> m_id m) (getAllMatches False r' db)"
proof (cases "findIndex (\<lambda>x. m_id x = m_id m) (js_sort by_date_desc (stored_matches db))")
  case None
  then show ?thesis by (simp add: getAllMatches_local stored_matches_updateMatch)
next
  case (Some i)
  let ?xs = "js_sort by_date_desc (stored_matches db)"
  have "filter (\<lambda>x. m_id x \<noteq> m_id m) (js_sort by_date_desc (?xs[i := m]))
          = js_sort by_date_desc (filter (\<lambda>x. m_id x \<noteq> m_id m) (?xs[i := m]))"
    by (simp add: filter_js_sort_date)
  also have "\<dots> = js_sort by_date_desc (filter (\<lambda>x. m_id x \<noteq> m_id m) ?xs)"
    using filter_update_other[OF Some, of m] by simp
  also have "\<dots> = filter (\<lambda>x. m_id x \<noteq> m_id m) (js_sort by_date_desc ?xs)"
    by (simp add: filter_js_sort_date)
  also have "\<dots> = filter (\<lambda>x. m_id x \<noteq> m_id m) ?xs"
    by (simp add: js_sort_date_id date_descending_js_sort)
  finally show ?thesis
    using Some by (simp add: getAllMatches_local stored_matches_updateMatch)
qed

lemma others_getAllMatches_deleteMatch:
  "filter (\<lambda>x. m_id x \<noteq> k) (getAllMatches False r' (deleteMatch False r k db))
     = filter (\<lambda>x. m_id x \<noteq> k) (getAllMatches False r' db)"
proof -
  let ?xs = "js_sort by_date_desc (stored_matches db)"
  have "js_sort by_date_desc (filter (\<lambda>x. m_id x \<noteq> k) ?xs) = filter (\<lambda>x. m_id x \<noteq> k) (js_sort by_date_desc ?xs)"
    by (simp add: filter_js_sort_date)
  also have "\<dots> = filter (\<lambda>x. m_id x \<noteq> k) ?xs"
    by (simp add: js_sort_date_id date_descending_js_sort)
  finally show ?thesis
    by (simp add: getAllMatches_local stored_matches_deleteMatch)
qed

lemma others_stored_updateMatch:
  "stored_matches (updateMatch False r m db) = stored_matches db
   \<or> filter (\<lambda>x. m_id x \<noteq> m_id m) (stored_matches (updateMatch False r m db))
       = filter (\<lambda>x. m_id x \<noteq> m_id m) (js_sort by_date_desc (stored_matches db))"
proof (cases "findIndex (\<lambda>x. m_id x = m_id m) (js_sort by_date_desc (stored_matches db))")
  case None
  then show ?thesis by (simp add: stored_matches_updateMatch)
next
  case (Some i)
  then show ?thesis
    using filter_update_other[OF Some, of m] by (simp add: stored_matches_updateMatch)
qed

section \<open>Lemmas about the statistics\<close>

lemma incr_exact: "- (2 ^ 53) \<le> x \<Longrightarrow> x < 2 ^ 53 \<Longrightarrow> incr x = x + 1"
proof -
  assume "- (2 ^ 53) \<le> x" "x < 2 ^ 53"
  then have "\<bar>x + 1\<bar> \<le> 2 ^ 53" by simp
  then show ?thesis by (simp add: incr_def to_double_def Let_def nat_le_iff)
qed





lemma bump_absent: "k \<notin> fst ` set s \<Longrightarrow> bump s k f = s"
  by (induction s) auto


lemma map_fst_assign_old: "k \<in> fst ` set s \<Longrightarrow> map fst (assign s k v) = map fst s"
  by (induction s) force+










lemma bit_length_bounds: "2 ^ n \<le> a \<Longrightarrow> a < 2 ^ Suc n \<Longrightarrow> bit_length a = Suc n"
proof (induction n arbitrary: a)
  case 0
  then have "a = 1" by simp
  then show ?case by (simp add: bit_length.simps)
next
  case (Suc n)
  then have "2 ^ n \<le> a div 2" "a div 2 < 2 ^ Suc n" by simp_all
  from Suc.IH[OF this] Suc.prems show ?case by (subst bit_length.simps) simp
qed

lemma incr_at_limit: "incr 9007199254740992 = 9007199254740992"
proof -
  have "bit_length 9007199254740993 = Suc 53"
    by (rule bit_length_bounds) simp_all
  then show ?thesis by (simp add: incr_def to_double_def Let_def)
qed






















lemma precedes_ok_iff: "precedes_ok a b \<longleftrightarrow> compare_stats a b \<le> 0"
  by (simp add: precedes_ok_def compare_stats_def)

lemma compare_stats_total: "compare_stats a b \<le> 0 \<or> compare_stats b a \<le> 0"
  by (auto simp: compare_stats_def)

lemma transitive_onD:
  "transitive_on xs \<Longrightarrow> a \<in> set xs \<Longrightarrow> b \<in> set xs \<Longrightarrow> c \<in> set xs
   \<Longrightarrow> precedes_ok a b \<Longrightarrow> precedes_ok b c \<Longrightarrow> precedes_ok a c"
  unfolding transitive_on_def list_all_iff by blast

lemma leaderboard_ordered_if_transitive:
  assumes "transitive_on (map player_stat players)"
  shows "leaderboard_ordered (stats_players_only players)"
proof -
  let ?xs = "map player_stat players"
  have "sorted_wrt (\<lambda>a b. compare_stats a b \<le> 0) (js_sort compare_stats ?xs)"
  proof (rule sorted_js_sort)
    fix a b show "compare_stats a b \<le> 0 \<or> compare_stats b a \<le> 0"
      by (rule compare_stats_total)
  next
    fix a b d
    assume "a \<in> set ?xs" "b \<in> set ?xs" "d \<in> set ?xs"
      "compare_stats a b \<le> 0" "compare_stats b d \<le> 0"
    then show "compare_stats a d \<le> 0"
      using transitive_onD[OF assms, of a b d] by (simp add: precedes_ok_iff)
  qed
  then show ?thesis
    by (simp add: leaderboard_ordered_def stats_players_only_def precedes_ok_iff[abs_def])
qed

lemma transitive_no_goalkeeper:
  "list_all (\<lambda>p. position p \<noteq> GK) players \<Longrightarrow> transitive_on (map player_stat players)"
  by (auto simp: transitive_on_def list_all_iff precedes_ok_def player_stat_def Let_def)

lemma transitive_only_goalkeepers:
  "list_all (\<lambda>p. position p = GK) players \<Longrightarrow> transitive_on (map player_stat players)"
  by (auto simp: transitive_on_def list_all_iff precedes_ok_def player_stat_def Let_def)

lemma stats_goals_descending: "sorted_wrt (\<lambda>a b. goals a \<ge> goals b) (stats players ms)"
proof -
  have "sorted_wrt (\<lambda>a b. goals b - goals a \<le> 0) (js_sort (\<lambda>a b. goals b - goals a) xs)"
    for xs :: "Stat list"
    by (rule sorted_js_sort) auto
  then show ?thesis
    by (cases "each count_match (seed players) (filter isFinished ms)")
       (simp_all add: stats_def stats_outcome_def)
qed

lemma sorted_wrt_positions:
  assumes "sorted_wrt R ys" "i < length ys" "j < length ys" "\<not> R (ys ! j) (ys ! i)"
    "ys ! i \<noteq> ys ! j"
  shows "i < j"
proof (rule ccontr)
  assume "\<not> i < j"
  with assms(5) have "j < i" by (cases "i = j") auto
  from sorted_wrt_nth_less[OF assms(1) this assms(2)] assms(4) show False by simp
qed

lemma no_order_for_circle:
  assumes "set ys = set (map player_stat [gk_one, gk_two, fwd_three])"
  shows "\<not> leaderboard_ordered ys"
proof
  assume "leaderboard_ordered ys"
  then have s: "sorted_wrt precedes_ok ys" by (simp add: leaderboard_ordered_def)
  let ?a = "player_stat gk_one" and ?b = "player_stat gk_two" and ?c = "player_stat fwd_three"
  from assms obtain i j k where
    i: "i < length ys" "ys ! i = ?a" and j: "j < length ys" "ys ! j = ?b"
    and k: "k < length ys" "ys ! k = ?c"
    by (auto simp: set_eq_iff in_set_conv_nth) metis
  have nba: "\<not> precedes_ok ?b ?a" and ncb: "\<not> precedes_ok ?c ?b" and nac: "\<not> precedes_ok ?a ?c"
    by (simp_all add: precedes_ok_def player_stat_def gk_one_def gk_two_def fwd_three_def
        mk_player_def num_def)
  have ne: "?a \<noteq> ?b" "?b \<noteq> ?c" "?c \<noteq> ?a"
    by (simp_all add: player_stat_def gk_one_def gk_two_def fwd_three_def mk_player_def num_def)
  have "i < j" using sorted_wrt_positions[OF s i(1) j(1)] nba ne i j by simp
  moreover have "j < k" using sorted_wrt_positions[OF s j(1) k(1)] ncb ne j k by simp
  moreover have "k < i" using sorted_wrt_positions[OF s k(1) i(1)] nac ne k i by simp
  ultimately show False by simp
qed

lemma prototype_lookup_raises:
  "stats_outcome [mk_player ''__proto__'' ''Ana'' MID 2 0]
     [(mk_match ''m'' 1 True)\<lparr>homePlayerIds := [''goals'']\<rparr>] = Throws"
  by (simp add: stats_outcome_def seed_def set_prop_def mk_player_def mk_match_def num_def
      count_match_def bump_prop_def read_field_def)

section \<open>Lemmas about the narrative generator and the match lifecycle\<close>

lemma generateMatchReport_returns:
  "\<exists>text. fst (generateMatchReport ai match allPlayers) = Returns text"
  by (cases ai) (auto simp: generateMatchReport_def Let_def split: outcome.splits)

lemma find_map_same:
  "(\<And>x. P (f x) = P x) \<Longrightarrow> find P (map f xs) = map_option f (find P xs)"
  by (induction xs) auto

lemma activeMatch_id: "activeMatch s = Some am \<Longrightarrow> activeMatchId s = Some (m_id am)"
  by (auto simp: activeMatch_def find_Some_iff)

lemma activeMatch_replace:
  assumes "activeMatch s = Some am" "m_id am' = m_id am"
    "activeMatchId s' = activeMatchId s"
    "s_matches s' = map (\<lambda>m. if m_id m = m_id am then am' else m) (s_matches s)"
  shows "activeMatch s' = Some am'"
proof -
  let ?f = "\<lambda>m. if m_id m = m_id am then am' else m"
  have "find (\<lambda>m. Some (m_id m) = activeMatchId s) (map ?f (s_matches s))
          = map_option ?f (find (\<lambda>m. Some (m_id m) = activeMatchId s) (s_matches s))"
    by (rule find_map_same) (simp add: assms(2))
  then show ?thesis using assms by (simp add: activeMatch_def)
qed

lemma addEvent_active:
  assumes "activeMatch s = Some am"
  shows "addEvent cfg r now1 now2 rnd ty sd pid s =
     (let updatedMatch = am\<lparr>
            homeScore := (if ty = GOAL \<and> sd = home then incr (homeScore am) else homeScore am),
            awayScore := (if ty = GOAL \<and> sd \<noteq> home then incr (awayScore am) else awayScore am),
            events := \<lparr>e_id = digits_of now1, matchId = m_id am, side = sd, playerId = pid,
                  assistPlayerId = None, e_type = ty, minute = minute_of rnd,
                  timestamp = int now2\<rparr> # events am\<rparr>
      in s\<lparr>world := updateMatch cfg r updatedMatch (world s),
            s_matches := map (\<lambda>m. if m_id m = m_id am then updatedMatch else m) (s_matches s)\<rparr>)"
  using assms by (simp add: addEvent_def Let_def)

text \<open>The handlers run from the call to the end are their parts, one after the other.\<close>

lemma startMatch_parts:
  "startMatch cfg r now stamp s =
     (case startMatch_request now stamp s of
        None \<Rightarrow> s
      | Some newMatch \<Rightarrow>
          startMatch_resume newMatch (s_matches s) (s\<lparr>world := addMatch cfg r newMatch (world s)\<rparr>))"
  by (simp add: startMatch_def startMatch_request_def startMatch_resume_def Let_def)

lemma addEvent_parts:
  "addEvent cfg r now1 now2 rnd ty sd pid s =
     (case addEvent_request now1 now2 rnd ty sd pid s of
        None \<Rightarrow> s
      | Some (am, updatedMatch) \<Rightarrow>
          addEvent_resume am updatedMatch (s_matches s)
            (s\<lparr>world := updateMatch cfg r updatedMatch (world s)\<rparr>))"
  by (cases "activeMatch s")
     (simp_all add: addEvent_def addEvent_request_def addEvent_resume_def Let_def)


lemma minute_of_range: "0 \<le> rnd \<Longrightarrow> rnd < 1 \<Longrightarrow> 1 \<le> minute_of rnd \<and> minute_of rnd \<le> 90"
proof -
  assume a: "0 \<le> rnd" "rnd < 1"
  then have "0 \<le> rnd * 90" "rnd * 90 < 90" by simp_all
  then have "0 \<le> \<lfloor>rnd * 90\<rfloor>" "\<lfloor>rnd * 90\<rfloor> < 90"
    by (simp_all add: floor_less_iff)
  then show ?thesis by (simp add: minute_of_def)
qed












lemma stored_updateMatch_shape:
  "(stored_matches (updateMatch False r m w) = stored_matches w
      \<and> (\<forall>x\<in>set (stored_matches w). m_id x \<noteq> m_id m))
   \<or> (\<exists>i xs. mset xs = mset (stored_matches w) \<and> i < length xs \<and> m_id (xs ! i) = m_id m
        \<and> stored_matches (updateMatch False r m w) = xs[i := m])"
proof (cases "findIndex (\<lambda>x. m_id x = m_id m) (js_sort by_date_desc (stored_matches w))")
  case None
  then have "\<forall>x\<in>set (stored_matches w). m_id x \<noteq> m_id m"
    by (simp add: findIndex_None set_js_sort_date)
  with None show ?thesis by (simp add: stored_matches_updateMatch)
next
  case (Some i)
  from findIndex_Some[OF Some] Some show ?thesis
    by (intro disjI2 exI[of _ i] exI[of _ "js_sort by_date_desc (stored_matches w)"])
       (simp add: stored_matches_updateMatch mset_js_sort_date)
qed

lemma update_keeps_keys:
  assumes "i < length xs" "f (xs ! i) = f m"
  shows "map f (xs[i := m]) = map f xs"
  using assms by (simp add: map_update list_update_same_conv)

lemma update_member:
  assumes "distinct (map f xs)" "i < length xs" "x \<in> set (xs[i := m])" "x \<noteq> m"
  shows "x \<in> set xs \<and> f x \<noteq> f (xs ! i)"
proof -
  from assms(3) obtain j where j: "j < length xs" "xs[i := m] ! j = x"
    by (auto simp: in_set_conv_nth)
  with assms(4) have ne: "j \<noteq> i" by (auto simp: assms(2))
  with j have x: "x = xs ! j" by simp
  have "map f xs ! j \<noteq> map f xs ! i"
    using nth_eq_iff_index_eq[OF assms(1), of j i] assms(2) j(1) ne by simp
  with x j(1) assms(2) show ?thesis by simp
qed

lemma persisted_updateMatch_local:
  assumes d: "distinct (map m_id (stored_matches w))"
  shows "mset (map m_id (stored_matches (updateMatch False r m w)))
           = mset (map m_id (stored_matches w))
         \<and> (\<forall>x\<in>set (stored_matches (updateMatch False r m w)).
               x = m \<or> (x \<in> set (stored_matches w) \<and> m_id x \<noteq> m_id m))"
proof -
  let ?old = "stored_matches w" and ?new = "stored_matches (updateMatch False r m w)"
  consider (same) "?new = ?old" "\<forall>x\<in>set ?old. m_id x \<noteq> m_id m"
    | (replaced) i xs where "mset xs = mset ?old" "i < length xs" "m_id (xs ! i) = m_id m"
        "?new = xs[i := m]"
    using stored_updateMatch_shape[of r m w] by auto
  then show ?thesis
  proof cases
    case same
    then show ?thesis by auto
  next
    case (replaced i xs)
    have ids: "mset (map m_id xs) = mset (map m_id ?old)"
      using replaced(1) by (metis mset_map)
    have dx: "distinct (map m_id xs)" using d mset_eq_imp_distinct_iff[OF ids] by simp
    have sx: "set xs = set ?old" using replaced(1) by (metis set_mset_mset)
    have k: "map m_id ?new = map m_id xs"
      unfolding replaced(4) by (rule update_keeps_keys[OF replaced(2,3)])
    have "x = m \<or> (x \<in> set ?old \<and> m_id x \<noteq> m_id m)" if "x \<in> set ?new" for x
    proof (cases "x = m")
      case False
      from update_member[OF dx replaced(2) that[unfolded replaced(4)] False]
      show ?thesis using sx replaced(3) by auto
    qed simp
    then show ?thesis using k ids by simp
  qed
qed

lemma remote_update_keyed:
  assumes "keyed rows"
  shows "remote_update Ok (m_id m) m rows
           = map (\<lambda>(k, j). (k, if m_id j = m_id m then m else j)) rows"
  unfolding remote_update_def using assms
  by (auto simp: keyed_def list_all_iff intro!: map_cong)

lemma persisted_updateMatch_remote:
  assumes k: "keyed (tbl_matches w)"
  shows "map m_id (map snd (tbl_matches (updateMatch True Ok m w)))
           = map m_id (map snd (tbl_matches w))
         \<and> (\<forall>x\<in>set (map snd (tbl_matches (updateMatch True Ok m w))).
               x = m \<or> (x \<in> set (map snd (tbl_matches w)) \<and> m_id x \<noteq> m_id m))
         \<and> keyed (tbl_matches (updateMatch True Ok m w))"
proof -
  let ?rows = "tbl_matches w"
  let ?g = "\<lambda>j. if m_id j = m_id m then m else j"
  have t: "tbl_matches (updateMatch True Ok m w) = map (\<lambda>(k, j). (k, ?g j)) ?rows"
    by (simp add: updateMatch_def remote_update_keyed[OF k])
  have s: "map snd (map (\<lambda>(k, j). (k, ?g j)) ?rows) = map ?g (map snd ?rows)"
    by (simp add: case_prod_unfold comp_def)
  have 1: "map m_id (map ?g js) = map m_id js" for js
    by (induction js) auto
  have 2: "\<forall>x\<in>set (map ?g js). x = m \<or> (x \<in> set js \<and> m_id x \<noteq> m_id m)" for js
    by auto
  have 3: "keyed (map (\<lambda>(k, j). (k, ?g j)) ?rows)"
    using k by (auto simp: keyed_def list_all_iff)
  show ?thesis unfolding t s using 1 2 3 by blast
qed

lemma persisted_updateMatch:
  assumes ok: "cfg \<longrightarrow> r = Ok" and d: "distinct (map m_id (persisted_matches cfg w))"
    and k: "cfg \<longrightarrow> keyed (tbl_matches w)"
  shows "mset (map m_id (persisted_matches cfg (updateMatch cfg r m w)))
           = mset (map m_id (persisted_matches cfg w))
         \<and> (\<forall>x\<in>set (persisted_matches cfg (updateMatch cfg r m w)).
               x = m \<or> (x \<in> set (persisted_matches cfg w) \<and> m_id x \<noteq> m_id m))
         \<and> (cfg \<longrightarrow> keyed (tbl_matches (updateMatch cfg r m w)))"
proof (cases cfg)
  case True
  with ok k have "r = Ok" "keyed (tbl_matches w)" by simp_all
  with persisted_updateMatch_remote[of w m] True show ?thesis
    by (simp add: persisted_matches_def)
next
  case False
  with persisted_updateMatch_local[of w r m] d show ?thesis
    by (simp add: persisted_matches_def)
qed

lemma inv_updateMatch:
  assumes i: "lifecycle_inv cfg s"
    and w: "world s' = updateMatch cfg r m (world s)"
    and ok: "cfg \<longrightarrow> r = Ok"
    and a: "activeMatchId s = Some (m_id m)"
    and a': "activeMatchId s' = (if isFinished m then None else activeMatchId s)"
    and t: "activeTab s' \<noteq> draft"
  shows "lifecycle_inv cfg s'"
proof -
  let ?old = "persisted_matches cfg (world s)" and ?new = "persisted_matches cfg (world s')"
  from i have d: "distinct (map m_id ?old)" and ne: "[] \<notin> set (map m_id ?old)"
    and u: "\<And>x. x \<in> set ?old \<Longrightarrow> \<not> isFinished x \<Longrightarrow> m_id x = m_id m"
    and k: "cfg \<longrightarrow> keyed (tbl_matches (world s))"
    by (auto simp: lifecycle_inv_def a)
  from persisted_updateMatch[OF ok d k, where m = m]
  have p1: "mset (map m_id ?new) = mset (map m_id ?old)"
    and p2: "\<And>x. x \<in> set ?new \<Longrightarrow> x = m \<or> (x \<in> set ?old \<and> m_id x \<noteq> m_id m)"
    and p3: "cfg \<longrightarrow> keyed (tbl_matches (world s'))"
    unfolding w by blast+
  have 1: "distinct (map m_id ?new)" using d mset_eq_imp_distinct_iff[OF p1] by simp
  have 2: "[] \<notin> set (map m_id ?new)" using ne p1 by (metis set_mset_mset)
  have 3: "activeMatchId s' = Some (m_id x)" if "x \<in> set ?new" "\<not> isFinished x" for x
  proof (cases "x = m")
    case True
    with that a a' show ?thesis by simp
  next
    case False
    with p2[OF that(1)] have "x \<in> set ?old" "m_id x \<noteq> m_id m" by auto
    with u[OF this(1) that(2)] show ?thesis by simp
  qed
  show ?thesis unfolding lifecycle_inv_def using 1 2 3 t p3 by blast
qed


lemma inv_finishMatch:
  assumes i: "lifecycle_inv cfg s" and l: "activeTab s = live" and a: "activeMatch s \<noteq> None"
    and ok: "cfg \<longrightarrow> r = Ok"
  shows "lifecycle_inv cfg (finishMatch cfg ai r s)"
proof -
  from a obtain am where am: "activeMatch s = Some am" by auto
  from generateMatchReport_returns obtain report
    where rep: "fst (generateMatchReport ai am (s_players s)) = Returns report" by blast
  let ?fm = "am\<lparr>isFinished := True, aiAnalysis := Some report\<rparr>"
  let ?s' = "finishMatch cfg ai r s"
  have s': "?s' = s\<lparr>world := updateMatch cfg r ?fm (world s),
                      s_matches := map (\<lambda>m. if m_id m = m_id am then ?fm else m) (s_matches s),
                      activeMatchId := None, generatingReport := False,
                      draftHomeIds := [], draftAwayIds := [], activeTab := matches_tab\<rparr>"
    by (simp add: finishMatch_def am rep Let_def)
  show ?thesis
    by (rule inv_updateMatch[OF i, where m = ?fm and r = r])
       (simp_all add: s' activeMatch_id[OF am] ok)
qed







text \<open>A handler that runs from the call to the end while nothing else awaits.\<close>

lemma reachable_startMatch:
  assumes "reachable cfg faults overlap store s []" "activeTab s = draft"
    "digits_of now \<notin> m_id ` set (persisted_matches cfg (world s))" "faults \<or> r = Ok"
  shows "reachable cfg faults overlap store (startMatch cfg r now stamp s) []"
proof (cases "startMatch_request now stamp s")
  case None
  with assms(1) show ?thesis by (simp add: startMatch_parts)
next
  case (Some m)
  then have id: "m_id m = digits_of now"
    by (auto simp: startMatch_request_def split: if_splits)
  have "reachable cfg faults overlap store (s\<lparr>world := addMatch cfg r m (world s)\<rparr>)
          ([] @ [Starting m (s_matches s)])"
    by (rule reachable.start_called[OF assms(1) _ assms(2) Some _ assms(4)])
       (simp_all add: id assms(3))
  from reachable.start_resumed[OF this, of m "s_matches s"]
  show ?thesis by (simp add: startMatch_parts Some)
qed

lemma reachable_addEvent:
  assumes "reachable cfg faults overlap store s []" "event_offered s ty sd pid"
    "0 \<le> rnd" "rnd < 1" "faults \<or> r = Ok"
  shows "reachable cfg faults overlap store (addEvent cfg r now1 now2 rnd ty sd pid s) []"
proof (cases "addEvent_request now1 now2 rnd ty sd pid s")
  case None
  with assms(1) show ?thesis by (simp add: addEvent_parts)
next
  case (Some p)
  obtain am um where p: "p = (am, um)" by (cases p)
  have q: "addEvent_request now1 now2 rnd ty sd pid s = Some (am, um)" by (simp add: Some p)
  have "reachable cfg faults overlap store (s\<lparr>world := updateMatch cfg r um (world s)\<rparr>)
          ([] @ [Recording am um (s_matches s)])"
    by (rule reachable.event_called[OF assms(1) _ assms(2,3,4) q assms(5)]) simp
  from reachable.event_resumed[OF this, of am um "s_matches s"]
  show ?thesis by (simp add: addEvent_parts Some p)
qed


lemma remote_loaded_fields:
  "activeTab remote_loaded = dashboard"
  "s_players remote_loaded = [ana, beto]"
  "s_matches remote_loaded = []"
  "draftHomeName remote_loaded = ''Equipo A''" "draftAwayName remote_loaded = ''Equipo B''"
  "draftHomeIds remote_loaded = []" "draftAwayIds remote_loaded = []"
  "activeMatchId remote_loaded = None" "generatingReport remote_loaded = False"
  "world remote_loaded = remote_db"
  by (simp_all add: remote_loaded_def loadData_def getAllPlayers_def getAllMatches_def
      remote_select_def remote_db_def empty_db_def js_sort_def)

lemma reachable_loaded: "reachable True faults overlap remote_db remote_loaded []"
  unfolding remote_loaded_def by (rule reachable.load) simp

lemma toggle_fields:
  "activeTab (toggleDraftSelection pid sd s) = activeTab s"
  "s_players (toggleDraftSelection pid sd s) = s_players s"
  "world (toggleDraftSelection pid sd s) = world s"
  "activeMatchId (toggleDraftSelection pid sd s) = activeMatchId s"
  "s_matches (toggleDraftSelection pid sd s) = s_matches s"
  "generatingReport (toggleDraftSelection pid sd s) = generatingReport s"
  "draftHomeName (toggleDraftSelection pid sd s) = draftHomeName s"
  "draftAwayName (toggleDraftSelection pid sd s) = draftAwayName s"
  by (simp_all add: toggleDraftSelection_def Let_def)

lemma reachable_pick_teams:
  assumes "reachable cfg faults overlap store s []" "\<not> truthy (activeMatchId s)"
    "s_players s = [ana, beto]"
  shows "reachable cfg faults overlap store (pick_teams s) []"
proof -
  let ?s1 = "s\<lparr>activeTab := draft\<rparr>"
  have 1: "reachable cfg faults overlap store ?s1 []"
  proof (rule reachable.navigate[OF assms(1)])
    show "overlap \<or> ([]::Task list) = []" by simp
    show "tab_offered s draft" using assms(2) by (simp add: tab_offered_def)
  qed
  have 2: "reachable cfg faults overlap store (toggleDraftSelection ''1'' home ?s1) []"
  proof (rule reachable.toggle[OF 1])
    show "overlap \<or> ([]::Task list) = []" by simp
    show "activeTab ?s1 = draft" by simp
    show "''1'' \<in> p_id ` set (s_players ?s1)" by (simp add: assms(3) ana_def beto_def mk_player_def)
  qed
  have "reachable cfg faults overlap store
          (toggleDraftSelection ''2'' away (toggleDraftSelection ''1'' home ?s1)) []"
  proof (rule reachable.toggle[OF 2])
    show "overlap \<or> ([]::Task list) = []" by simp
    show "activeTab (toggleDraftSelection ''1'' home ?s1) = draft"
      by (simp add: toggle_fields)
    show "''2'' \<in> p_id ` set (s_players (toggleDraftSelection ''1'' home ?s1))"
      by (simp add: toggle_fields assms(3) ana_def beto_def mk_player_def)
  qed
  then show ?thesis by (simp add: pick_teams_def)
qed

lemma pick_teams_fields:
  "activeTab (pick_teams s) = draft" "world (pick_teams s) = world s"
  "activeMatchId (pick_teams s) = activeMatchId s" "s_players (pick_teams s) = s_players s"
  "s_matches (pick_teams s) = s_matches s" "generatingReport (pick_teams s) = generatingReport s"
  "draftHomeName (pick_teams s) = draftHomeName s" "draftAwayName (pick_teams s) = draftAwayName s"
  by (simp_all add: pick_teams_def toggle_fields)

lemma pick_teams_drafts:
  "draftHomeIds s = [] \<Longrightarrow> draftAwayIds s = [] \<Longrightarrow>
   draftHomeIds (pick_teams s) = [''1''] \<and> draftAwayIds (pick_teams s) = [''2'']"
  by (simp add: pick_teams_def toggleDraftSelection_def Let_def)

lemma digits_1000: "digits_of 1000 = ''1000''" by code_simp


lemma remote_db_tables:
  "tbl_matches remote_db = []"
  "tbl_players remote_db = [(''1'', ana), (''2'', beto)]"
  by (simp_all add: remote_db_def empty_db_def)

lemma picked_loaded:
  "draftHomeIds (pick_teams remote_loaded) = [''1'']"
  "draftAwayIds (pick_teams remote_loaded) = [''2'']"
  using pick_teams_drafts[of remote_loaded] by (simp_all add: remote_loaded_fields)

lemma first_match_live_fields:
  "activeMatchId first_match_live = Some ''1000''"
  "activeTab first_match_live = live"
  "s_players first_match_live = [ana, beto]"
  "generatingReport first_match_live = False"
  "map m_id (s_matches first_match_live) = [''1000'']"
  "map m_id (persisted_matches True (world first_match_live)) = [''1000'']"
  "map isFinished (persisted_matches True (world first_match_live)) = [False]"
  by (simp_all add: first_match_live_def startMatch_def Let_def pick_teams_fields
      picked_loaded remote_loaded_fields digits_1000 addMatch_def remote_insert_def
      persisted_matches_def remote_db_tables)


lemma reachable_first: "reachable True faults overlap remote_db first_match_live []"
  unfolding first_match_live_def
proof (rule reachable_startMatch)
  show "reachable True faults overlap remote_db (pick_teams remote_loaded) []"
    by (rule reachable_pick_teams[OF reachable_loaded]) (simp_all add: remote_loaded_fields truthy_def)
  show "activeTab (pick_teams remote_loaded) = draft"
    by (simp add: pick_teams_fields)
  show "digits_of 1000 \<notin> m_id ` set (persisted_matches True (world (pick_teams remote_loaded)))"
    by (simp add: pick_teams_fields remote_loaded_fields persisted_matches_def remote_db_tables)
  show "faults \<or> Ok = Ok" by simp
qed






lemma local_loaded_fields:
  "activeTab local_loaded = dashboard"
  "s_players local_loaded = [ana, beto]"
  "s_matches local_loaded = []"
  "draftHomeName local_loaded = ''Equipo A''" "draftAwayName local_loaded = ''Equipo B''"
  "draftHomeIds local_loaded = []" "draftAwayIds local_loaded = []"
  "activeMatchId local_loaded = None" "generatingReport local_loaded = False"
  "world local_loaded = local_db"
  by (simp_all add: local_loaded_def loadData_def getAllPlayers_def getAllMatches_def
      local_db_def empty_db_def js_sort_def)


lemma picked_local:
  "draftHomeIds (pick_teams local_loaded) = [''1'']"
  "draftAwayIds (pick_teams local_loaded) = [''2'']"
  using pick_teams_drafts[of local_loaded] by (simp_all add: local_loaded_fields)

lemma stored_local_db: "stored_matches local_db = []"
  by (simp add: stored_matches_def local_db_def empty_db_def)



lemma local_live_fields:
  "activeMatchId local_live = Some ''1000''"
  "s_matches local_live = [mk_match ''1000'' 1000 False]"
  "activeTab local_live = live"
  "stored_matches (world local_live) = [mk_match ''1000'' 1000 False]"
  by (simp_all add: local_live_def startMatch_def Let_def pick_teams_fields picked_local
      local_loaded_fields digits_1000 mk_match_def stored_matches_addMatch stored_local_db
      js_sort_def)

lemma active_local_live: "activeMatch local_live = Some (mk_match ''1000'' 1000 False)"
  by (simp add: activeMatch_def local_live_fields) (simp add: mk_match_def)





text \<open>The sessions with an error, with overlapping handlers and with a score at the limit.\<close>

lemma incr_zero: "incr 0 = 1"
  using incr_exact[of 0] by simp

lemma digits_1001: "digits_of 1001 = ''1001''" by code_simp

lemma digits_1002: "digits_of 1002 = ''1002''" by code_simp

lemma first_match_live_matches:
  "s_matches first_match_live = [mk_match ''1000'' 1000 False]"
  "tbl_matches (world first_match_live) = [(''1000'', mk_match ''1000'' 1000 False)]"
  "activeMatch first_match_live = Some (mk_match ''1000'' 1000 False)"
  by (simp_all add: first_match_live_def startMatch_def Let_def pick_teams_fields
      picked_loaded remote_loaded_fields digits_1000 addMatch_def remote_insert_def
      remote_db_tables mk_match_def activeMatch_def)

lemma first_match_offers: "event_offered first_match_live GOAL home ''1''"
  by (simp add: event_offered_def first_match_live_fields first_match_live_matches
      mk_match_def ana_def beto_def mk_player_def)

lemma minute_half: "minute_of (1/2) = 46"
  by (simp add: minute_of_def)

lemma first_requests:
  "addEvent_request 1001 1001 (1/2) GOAL home ''1'' first_match_live
     = Some (mk_match ''1000'' 1000 False,
             (mk_match ''1000'' 1000 False)
               \<lparr>homeScore := 1,
                events := [\<lparr>e_id = ''1001'', matchId = ''1000'', side = home, playerId = ''1'',
                            assistPlayerId = None, e_type = GOAL, minute = 46,
                            timestamp = 1001\<rparr>]\<rparr>)"
  "addEvent_request 1002 1002 (1/2) GOAL home ''1'' first_match_live
     = Some (mk_match ''1000'' 1000 False,
             (mk_match ''1000'' 1000 False)
               \<lparr>homeScore := 1,
                events := [\<lparr>e_id = ''1002'', matchId = ''1000'', side = home, playerId = ''1'',
                            assistPlayerId = None, e_type = GOAL, minute = 46,
                            timestamp = 1002\<rparr>]\<rparr>)"
  by (simp_all add: addEvent_request_def first_match_live_matches Let_def digits_1001
      digits_1002 minute_half incr_zero mk_match_def)

lemma overlapped_goals_reachable: "reachable True faults True remote_db overlapped_goals []"
proof -
  let ?m0 = "mk_match ''1000'' 1000 False"
  let ?u1 = "?m0\<lparr>homeScore := 1,
                events := [\<lparr>e_id = ''1001'', matchId = ''1000'', side = home, playerId = ''1'',
                            assistPlayerId = None, e_type = GOAL, minute = 46,
                            timestamp = 1001\<rparr>]\<rparr>"
  let ?u2 = "?m0\<lparr>homeScore := 1,
                events := [\<lparr>e_id = ''1002'', matchId = ''1000'', side = home, playerId = ''1'',
                            assistPlayerId = None, e_type = GOAL, minute = 46,
                            timestamp = 1002\<rparr>]\<rparr>"
  let ?s1 = "first_match_live\<lparr>world := updateMatch True Ok ?u1 (world first_match_live)\<rparr>"
  let ?s2 = "?s1\<lparr>world := updateMatch True Ok ?u2 (world ?s1)\<rparr>"
  let ?t1 = "Recording ?m0 ?u1 [?m0]" and ?t2 = "Recording ?m0 ?u2 [?m0]"
  have h: "(0::real) \<le> 1/2" "(1/2::real) < 1" by simp_all
  have 1: "reachable True faults True remote_db ?s1 ([] @ [Recording ?m0 ?u1 (s_matches first_match_live)])"
    by (rule reachable.event_called[OF reachable_first _ first_match_offers h first_requests(1)])
       simp_all
  have o: "event_offered ?s1 GOAL home ''1''"
    by (simp add: event_offered_def activeMatch_def first_match_live_fields
        first_match_live_matches mk_match_def ana_def beto_def mk_player_def)
  have q: "addEvent_request 1002 1002 (1/2) GOAL home ''1'' ?s1 = Some (?m0, ?u2)"
    using first_requests(2) by (simp add: addEvent_request_def activeMatch_def)
  have 2: "reachable True faults True remote_db ?s2
             (([] @ [Recording ?m0 ?u1 (s_matches first_match_live)]) @ [Recording ?m0 ?u2 (s_matches ?s1)])"
    by (rule reachable.event_called[OF 1 _ o h q]) simp_all
  then have 2: "reachable True faults True remote_db ?s2 [?t1, ?t2]"
    by (simp add: first_match_live_matches)
  have 3: "reachable True faults True remote_db (addEvent_resume ?m0 ?u1 [?m0] ?s2) (remove1 ?t1 [?t1, ?t2])"
    by (rule reachable.event_resumed[OF 2]) simp
  then have 3: "reachable True faults True remote_db (addEvent_resume ?m0 ?u1 [?m0] ?s2) [?t2]"
    by simp
  have "reachable True faults True remote_db
          (addEvent_resume ?m0 ?u2 [?m0] (addEvent_resume ?m0 ?u1 [?m0] ?s2)) (remove1 ?t2 [?t2])"
    by (rule reachable.event_resumed[OF 3]) simp
  then show ?thesis
    by (simp add: overlapped_goals_def first_requests first_match_live_matches)
qed

lemma overlapped_goals_one_kept:
  "map (length \<circ> events) (s_matches overlapped_goals) = [1]
   \<and> map (length \<circ> events) (persisted_matches True (world overlapped_goals)) = [1]"
  by (simp add: overlapped_goals_def first_requests first_match_live_matches addEvent_resume_def
      persisted_matches_def updateMatch_def remote_update_def mk_match_def)

lemma double_start_reachable:
  "reachable True faults True remote_db double_start
     [Starting (mk_match ''1000'' 1000 False) [], Starting (mk_match ''1001'' 1001 False) []]"
proof -
  let ?p = "pick_teams remote_loaded"
  let ?m1 = "mk_match ''1000'' 1000 False" and ?m2 = "mk_match ''1001'' 1001 False"
  let ?s1 = "?p\<lparr>world := addMatch True Ok ?m1 (world ?p)\<rparr>"
  have p: "reachable True faults True remote_db ?p []"
    by (rule reachable_pick_teams[OF reachable_loaded]) (simp_all add: remote_loaded_fields truthy_def)
  have q1: "startMatch_request 1000 1000 ?p = Some ?m1"
    by (simp add: startMatch_request_def picked_loaded pick_teams_fields remote_loaded_fields
        digits_1000 mk_match_def)
  have 1: "reachable True faults True remote_db ?s1 ([] @ [Starting ?m1 (s_matches ?p)])"
    by (rule reachable.start_called[OF p _ _ q1])
       (simp_all add: pick_teams_fields remote_loaded_fields persisted_matches_def
          remote_db_tables)
  have q2: "startMatch_request 1001 1001 ?s1 = Some ?m2"
    by (simp add: startMatch_request_def picked_loaded pick_teams_fields remote_loaded_fields
        digits_1001 mk_match_def)
  have "reachable True faults True remote_db (?s1\<lparr>world := addMatch True Ok ?m2 (world ?s1)\<rparr>)
          (([] @ [Starting ?m1 (s_matches ?p)]) @ [Starting ?m2 (s_matches ?s1)])"
    by (rule reachable.start_called[OF 1 _ _ q2])
       (simp_all add: pick_teams_fields remote_loaded_fields persisted_matches_def
          remote_db_tables addMatch_def remote_insert_def mk_match_def)
  then show ?thesis
    by (simp add: double_start_def pick_teams_fields remote_loaded_fields)
qed

lemma double_start_two_unfinished:
  "\<not> single_active (persisted_matches True (world double_start))"
  by (simp add: double_start_def single_active_def unfinished_def persisted_matches_def
      addMatch_def remote_insert_def remote_db_tables mk_match_def)

lemma high_score_fields:
  "s_matches high_score_live = [(mk_match ''9'' 1 False)\<lparr>homeScore := 9007199254740992\<rparr>]"
  "activeMatch high_score_live = Some ((mk_match ''9'' 1 False)\<lparr>homeScore := 9007199254740992\<rparr>)"
  "activeTab high_score_live = live"
  "s_players high_score_live = [ana, beto]"
  by (simp_all add: high_score_live_def loadData_def getAllMatches_def getAllPlayers_def
      high_score_db_def empty_db_def js_sort_def activeMatch_def mk_match_def Let_def)

lemma high_score_reachable: "reachable False faults overlap high_score_db high_score_live []"
  unfolding high_score_live_def
proof (rule reachable.navigate)
  show "reachable False faults overlap high_score_db (loadData False Ok Ok high_score_db) []"
    by (rule reachable.load) simp
  show "overlap \<or> ([]::Task list) = []" by simp
  show "tab_offered (loadData False Ok Ok high_score_db) live"
    by (simp add: tab_offered_def truthy_def loadData_def getAllMatches_def high_score_db_def
        empty_db_def js_sort_def mk_match_def Let_def)
qed

lemma high_score_unchanged:
  "map homeScore (s_matches (addEvent False Ok 1001 1001 (1/2) GOAL home ''1'' high_score_live))
     = [9007199254740992]"
  by (simp add: addEvent_def high_score_fields Let_def incr_at_limit mk_match_def)

lemma err_recorded:
  "map (length \<circ> events)
     (s_matches (addEvent True Err 1001 1001 (1/2) GOAL home ''1'' first_match_live)) = [1]"
  "map (length \<circ> events)
     (persisted_matches True (world (addEvent True Err 1001 1001 (1/2) GOAL home ''1'' first_match_live)))
     = [0]"
  by (simp_all add: addEvent_def first_match_live_matches Let_def persisted_matches_def
      updateMatch_def remote_update_def mk_match_def)

section \<open>Properties of the specification\<close>

subsection \<open>Statistics aggregator\<close>




text \<open>
  C2, as the code has it. In the variant without matches, whenever the two-tier comparison
  (two goalkeepers by saves, any other pair by goals) is transitive on the entries of the
  list, as it is for a list without goalkeepers and for a list of goalkeepers only, every
  entry \<open>a\<close> that precedes an entry \<open>b\<close> in the leaderboard has at least the saves of \<open>b\<close>
  when both are goalkeepers and at least the goals of \<open>b\<close> otherwise. In the variant with
  matches every entry has at least the goals of every entry after it.
\<close>

theorem leaderboard_order:
  "(transitive_on (map player_stat players) \<longrightarrow> leaderboard_ordered (stats_players_only players))
   \<and> (list_all (\<lambda>p. position p \<noteq> GK) players \<longrightarrow> leaderboard_ordered (stats_players_only players))
   \<and> (list_all (\<lambda>p. position p = GK) players \<longrightarrow> leaderboard_ordered (stats_players_only players))
   \<and> sorted_wrt (\<lambda>a b. goals a \<ge> goals b) (stats players ms)"
  using leaderboard_ordered_if_transitive transitive_no_goalkeeper transitive_only_goalkeepers
    stats_goals_descending by blast

text \<open>
  C2 for Ana and Beto, neither of them a goalkeeper, and for two goalkeepers.
\<close>

theorem leaderboard_order_witness:
  "list_all (\<lambda>p. position p \<noteq> GK) [ana, beto]
   \<and> transitive_on (map player_stat [ana, beto])
   \<and> leaderboard_ordered (stats_players_only [ana, beto])
   \<and> map ps_id (stats_players_only [ana, beto]) = [''2'', ''1'']
   \<and> list_all (\<lambda>p. position p = GK) [gk_two, gk_one]
   \<and> leaderboard_ordered (stats_players_only [gk_two, gk_one])
   \<and> map ps_id (stats_players_only [gk_two, gk_one]) = [''1'', ''2'']
   \<and> sorted_wrt (\<lambda>a b. goals a \<ge> goals b) (stats [ana, beto] [sample_match])"
proof -
  have n: "list_all (\<lambda>p. position p \<noteq> GK) [ana, beto]"
    by (simp add: ana_def beto_def mk_player_def)
  have t: "transitive_on (map player_stat [ana, beto])"
    by (simp add: transitive_on_def precedes_ok_def player_stat_def ana_def beto_def
        mk_player_def num_def)
  have o: "map ps_id (stats_players_only [ana, beto]) = [''2'', ''1'']"
    by (simp add: stats_players_only_def js_sort_def compare_stats_def player_stat_def
        ana_def beto_def mk_player_def num_def)
  have g: "list_all (\<lambda>p. position p = GK) [gk_two, gk_one]"
    by (simp add: gk_one_def gk_two_def mk_player_def)
  have og: "map ps_id (stats_players_only [gk_two, gk_one]) = [''1'', ''2'']"
    by (simp add: stats_players_only_def js_sort_def compare_stats_def player_stat_def
        gk_one_def gk_two_def mk_player_def num_def)
  from leaderboard_order[of "[ana, beto]" "[sample_match]"]
    leaderboard_order[of "[gk_two, gk_one]" "[]"] n t o g og
  show ?thesis by blast
qed

text \<open>
  C2 as stated, for every player list, fails for two goalkeepers and a forward on whom the
  comparison runs in a circle (by \<open>no_order_for_circle\<close> no arrangement of the three entries
  has the order asked for).
\<close>

theorem leaderboard_order_counterexample:
  "\<not> leaderboard_ordered (stats_players_only [gk_one, gk_two, fwd_three])"
  by (rule no_order_for_circle) (simp add: stats_players_only_def set_js_sort)

subsection \<open>Match lifecycle\<close>






text \<open>
  C5 as stated fails in two ways. On the hosted store an update answered with an error is
  logged and the handler goes on: the event is in memory and not in the store. A home
  score of \<open>2^53\<close> is not incremented by a goal. (What a recording does that is called
  before an earlier one has set state is shown by \<open>overlapped_goals_reachable\<close> and
  \<open>overlapped_goals_one_kept\<close>: of two goals one is kept.)
\<close>

theorem addEvent_prepends_counterexample:
  "reachable True True False remote_db first_match_live []
   \<and> activeMatch first_match_live = Some (mk_match ''1000'' 1000 False)
   \<and> map (length \<circ> events)
        (s_matches (addEvent True Err 1001 1001 (1/2) GOAL home ''1'' first_match_live)) = [1]
   \<and> map (length \<circ> events)
        (persisted_matches True
           (world (addEvent True Err 1001 1001 (1/2) GOAL home ''1'' first_match_live))) = [0]
   \<and> reachable False False False high_score_db high_score_live []
   \<and> map homeScore (s_matches high_score_live) = [9007199254740992]
   \<and> map homeScore
        (s_matches (addEvent False Ok 1001 1001 (1/2) GOAL home ''1'' high_score_live))
       = [9007199254740992]"
  using reachable_first first_match_live_matches(3) err_recorded high_score_reachable
    high_score_unchanged
  by (simp add: high_score_fields)

text \<open>
  C9. For every random draw \<open>0 \<le> rnd < 1\<close> the minute \<open>\<lfloor>rnd * 90\<rfloor> + 1\<close> lies between 1 and
  90, and so does the minute of the event that recording puts in front of the events of
  the active match.
\<close>

theorem minute_in_range:
  assumes "0 \<le> rnd" "rnd < 1"
  shows "1 \<le> minute_of rnd \<and> minute_of rnd \<le> 90
     \<and> (\<forall>am. activeMatch s = Some am \<longrightarrow>
          (\<exists>e am'. activeMatch (addEvent cfg r now1 now2 rnd ty sd pid s) = Some am'
             \<and> events am' = e # events am \<and> 1 \<le> minute e \<and> minute e \<le> 90))"
proof (intro conjI allI impI)
  show "1 \<le> minute_of rnd" "minute_of rnd \<le> 90"
    using minute_of_range[OF assms] by simp_all
next
  fix am assume am: "activeMatch s = Some am"
  let ?e = "\<lparr>e_id = digits_of now1, matchId = m_id am, side = sd, playerId = pid,
                  assistPlayerId = None, e_type = ty, minute = minute_of rnd,
                  timestamp = int now2\<rparr>"
  let ?am' = "am\<lparr>
            homeScore := (if ty = GOAL \<and> sd = home then incr (homeScore am) else homeScore am),
            awayScore := (if ty = GOAL \<and> sd \<noteq> home then incr (awayScore am) else awayScore am),
            events := ?e # events am\<rparr>"
  let ?s' = "addEvent cfg r now1 now2 rnd ty sd pid s"
  have s': "?s' = s\<lparr>world := updateMatch cfg r ?am' (world s),
            s_matches := map (\<lambda>m. if m_id m = m_id am then ?am' else m) (s_matches s)\<rparr>"
    using addEvent_active[OF am] by (simp add: Let_def)
  have "activeMatch ?s' = Some ?am'"
    by (rule activeMatch_replace[OF am]) (simp_all add: s')
  moreover have "events ?am' = ?e # events am" by simp
  moreover have "1 \<le> minute ?e \<and> minute ?e \<le> 90"
    using minute_of_range[OF assms] by simp
  ultimately show "\<exists>e am'. activeMatch ?s' = Some am'
             \<and> events am' = e # events am \<and> 1 \<le> minute e \<and> minute e \<le> 90"
    by blast
qed

text \<open>
  C9 for the draw one half, which gives minute 46.
\<close>

theorem minute_in_range_witness:
  "(0::real) \<le> 1/2 \<and> (1/2::real) < 1 \<and> minute_of (1/2) = 46
   \<and> 1 \<le> minute_of (1/2) \<and> minute_of (1/2) \<le> 90
   \<and> (\<exists>e am'. activeMatch (addEvent False Ok 1001 1001 (1/2) GOAL home ''1'' local_live) = Some am'
         \<and> events am' = [e] \<and> 1 \<le> minute e \<and> minute e \<le> 90)"
proof -
  have h: "(0::real) \<le> 1/2" "(1/2::real) < 1" by simp_all
  from minute_in_range[OF h, of local_live False Ok 1001 1001 GOAL home "''1''"] active_local_live
  have "1 \<le> minute_of (1/2) \<and> minute_of (1/2) \<le> 90"
    and "\<exists>e am'. activeMatch (addEvent False Ok 1001 1001 (1/2) GOAL home ''1'' local_live) = Some am'
             \<and> events am' = e # events (mk_match ''1000'' 1000 False) \<and> 1 \<le> minute e \<and> minute e \<le> 90"
    by blast+
  moreover have "events (mk_match ''1000'' 1000 False) = []" by (simp add: mk_match_def)
  moreover have "minute_of (1/2) = 46" by (simp add: minute_of_def)
  ultimately show ?thesis using h by simp
qed

subsection \<open>Persistence gateway, local backend\<close>

text \<open>
  C4. For every player and every match and every content of local storage: after
  \<open>addPlayer\<close> (\<open>addMatch\<close>) the list returned by \<open>getAllPlayers\<close> (\<open>getAllMatches\<close>) contains
  the entity, and after \<open>deletePlayer\<close> (\<open>deleteMatch\<close>) of its identifier the list contains
  no entity with that identifier.
\<close>

theorem add_then_list_delete_then_list:
  "player \<in> set (getAllPlayers False r (addPlayer False r' player db))
   \<and> p_id player \<notin> p_id ` set (getAllPlayers False r (deletePlayer False r' (p_id player) db))
   \<and> match \<in> set (getAllMatches False r (addMatch False r' match db))
   \<and> m_id match \<notin> m_id ` set (getAllMatches False r (deleteMatch False r' (m_id match) db))"
  by (auto simp: getAllPlayers_local getAllMatches_local stored_players_addPlayer
      stored_players_deletePlayer stored_matches_addMatch stored_matches_deleteMatch
      set_js_sort_date)

text \<open>
  C4 for Ana and the sample match on empty storage.
\<close>

theorem add_then_list_delete_then_list_witness:
  "ana \<in> set (getAllPlayers False Ok (addPlayer False Ok ana empty_db))
   \<and> p_id ana \<notin> p_id ` set (getAllPlayers False Ok (deletePlayer False Ok (p_id ana)
        (addPlayer False Ok ana empty_db)))
   \<and> sample_match \<in> set (getAllMatches False Ok (addMatch False Ok sample_match empty_db))
   \<and> m_id sample_match \<notin> m_id ` set (getAllMatches False Ok (deleteMatch False Ok
        (m_id sample_match) (addMatch False Ok sample_match empty_db)))"
  using add_then_list_delete_then_list[of ana Ok Ok empty_db sample_match]
    add_then_list_delete_then_list[of ana Ok Ok "addPlayer False Ok ana empty_db" sample_match]
    add_then_list_delete_then_list[of ana Ok Ok "addMatch False Ok sample_match empty_db" sample_match]
  by blast

text \<open>
  C6. \<open>getAllMatches\<close> returns the matches by date descending, in both variants of the
  gateway and on both backends; on local storage, and on the hosted store when the call
  succeeds, the result is a rearrangement of the stored matches.
\<close>

theorem getAllMatches_date_descending:
  "date_descending (getAllMatches isSupabaseConfigured r db)
   \<and> date_descending (getAllMatches_degraded supabase r db)
   \<and> mset (getAllMatches False r db) = mset (stored_matches db)
   \<and> mset (getAllMatches True Ok db) = mset (map snd (tbl_matches db))
   \<and> mset (getAllMatches_degraded True Ok db) = mset (map snd (tbl_matches db))"
proof -
  have "date_descending (getAllMatches isSupabaseConfigured r db)"
    by (simp add: getAllMatches_def remote_select_def date_descending_js_sort
        date_descending_Nil split: reply.splits)
  moreover have "date_descending (getAllMatches_degraded supabase r db)"
    by (simp add: getAllMatches_degraded_def remote_select_def date_descending_js_sort
        date_descending_Nil split: reply.splits)
  moreover have "mset (getAllMatches False r db) = mset (stored_matches db)"
    by (simp add: getAllMatches_local mset_js_sort_date)
  moreover have "mset (getAllMatches True Ok db) = mset (map snd (tbl_matches db))"
    by (simp add: getAllMatches_def remote_select_def mset_js_sort_date)
  moreover have "mset (getAllMatches_degraded True Ok db) = mset (map snd (tbl_matches db))"
    by (simp add: getAllMatches_degraded_def remote_select_def mset_js_sort_date)
  ultimately show ?thesis by blast
qed

text \<open>
  C6 for local storage holding three matches in ascending order of date.
\<close>

theorem getAllMatches_date_descending_witness:
  "date_descending (getAllMatches False Ok db_abx)
   \<and> map m_id (getAllMatches False Ok db_abx) = [''x'', ''b'', ''a'']
   \<and> mset (getAllMatches False Ok db_abx) = mset (stored_matches db_abx)"
proof -
  have "map m_id (getAllMatches False Ok db_abx) = [''x'', ''b'', ''a'']"
    by (simp add: getAllMatches_def db_abx_def empty_db_def mk_match_def js_sort_def
        by_date_desc_def)
  with getAllMatches_date_descending[of False Ok db_abx] show ?thesis by blast
qed

text \<open>
  C7, as the code has it. On local storage a second \<open>updatePlayer\<close> with the same player
  changes nothing. A second \<open>updateMatch\<close> with the same match changes nothing whenever the
  match has the date of the stored match it replaces (the first one with its identifier in
  the order of \<open>getAllMatches\<close>), or no stored match has its identifier.
\<close>

theorem update_twice:
  "updatePlayer False r p (updatePlayer False r' p db) = updatePlayer False r' p db
   \<and> (keeps_date m (getAllMatches False r db)
        \<longrightarrow> updateMatch False r m (updateMatch False r' m db) = updateMatch False r' m db)"
proof (intro conjI impI)
  show "updatePlayer False r p (updatePlayer False r' p db) = updatePlayer False r' p db"
    by (simp add: updatePlayer_twice) (simp add: updatePlayer_def getAllPlayers_local)
next
  assume a: "keeps_date m (getAllMatches False r db)"
  show "updateMatch False r m (updateMatch False r' m db) = updateMatch False r' m db"
  proof (cases "findIndex (\<lambda>x. m_id x = m_id m) (getAllMatches False r db)")
    case None
    then show ?thesis by (simp add: updateMatch_def getAllMatches_local)
  next
    case (Some i)
    then show ?thesis
      using updateMatch_twice_sorted[OF updateMatch_keeps_sorted[OF a]] by simp
  qed
qed

text \<open>
  C7 for the stored match \<open>b\<close> of date 2, updated to unfinished with the same date.
\<close>

theorem update_twice_witness:
  "keeps_date (mk_match ''b'' 2 False) (getAllMatches False Ok db_ab)
   \<and> updateMatch False Ok (mk_match ''b'' 2 False) (updateMatch False Ok (mk_match ''b'' 2 False) db_ab)
       = updateMatch False Ok (mk_match ''b'' 2 False) db_ab
   \<and> stored_matches (updateMatch False Ok (mk_match ''b'' 2 False) db_ab)
       = [mk_match ''a'' 3 True, mk_match ''b'' 2 False]
   \<and> updatePlayer False Ok ana (updatePlayer False Ok ana local_db) = updatePlayer False Ok ana local_db"
proof -
  have h: "keeps_date (mk_match ''b'' 2 False) (getAllMatches False Ok db_ab)"
    by (simp add: keeps_date_def getAllMatches_def db_ab_def empty_db_def mk_match_def
        js_sort_def by_date_desc_def)
  have s: "stored_matches (updateMatch False Ok (mk_match ''b'' 2 False) db_ab)
       = [mk_match ''a'' 3 True, mk_match ''b'' 2 False]"
    by (simp add: updateMatch_def getAllMatches_def stored_matches_def db_ab_def empty_db_def
        mk_match_def js_sort_def by_date_desc_def)
  from update_twice[of Ok ana Ok local_db "mk_match ''b'' 2 False"]
    update_twice[of Ok ana Ok db_ab "mk_match ''b'' 2 False"] h s
  show ?thesis by blast
qed

text \<open>
  C7 as stated, for every entity, fails for a match whose date changes: \<open>updateMatch\<close>
  writes back the list that \<open>getAllMatches\<close> sorted before the replacement, and the second
  call sorts the replaced match to its new place.
\<close>

theorem update_twice_counterexample:
  "updateMatch False Ok (mk_match ''b'' 5 True) (updateMatch False Ok (mk_match ''b'' 5 True) db_ab)
     \<noteq> updateMatch False Ok (mk_match ''b'' 5 True) db_ab"
  by (simp add: updateMatch_def getAllMatches_def db_ab_def empty_db_def mk_match_def
      js_sort_def by_date_desc_def)

text \<open>
  C10, as the code has it. On local storage \<open>updatePlayer\<close> and \<open>deletePlayer\<close> leave the
  stored players with another identifier as they were and in the same order. \<open>updateMatch\<close>
  and \<open>deleteMatch\<close> leave the matches with another identifier as they were: they are the
  same in the stored array, and \<open>getAllMatches\<close> returns them in the same order as before.
  In the stored array itself they keep their order when the array was stored by date
  descending.
\<close>

theorem mutation_frame:
  "filter (\<lambda>x. p_id x \<noteq> p_id p) (stored_players (updatePlayer False r p db))
     = filter (\<lambda>x. p_id x \<noteq> p_id p) (stored_players db)
   \<and> filter (\<lambda>x. p_id x \<noteq> k) (stored_players (deletePlayer False r k db))
     = filter (\<lambda>x. p_id x \<noteq> k) (stored_players db)
   \<and> filter (\<lambda>x. m_id x \<noteq> m_id m) (getAllMatches False r' (updateMatch False r m db))
     = filter (\<lambda>x. m_id x \<noteq> m_id m) (getAllMatches False r' db)
   \<and> filter (\<lambda>x. m_id x \<noteq> k) (getAllMatches False r' (deleteMatch False r k db))
     = filter (\<lambda>x. m_id x \<noteq> k) (getAllMatches False r' db)
   \<and> mset (filter (\<lambda>x. m_id x \<noteq> m_id m) (stored_matches (updateMatch False r m db)))
     = mset (filter (\<lambda>x. m_id x \<noteq> m_id m) (stored_matches db))
   \<and> mset (filter (\<lambda>x. m_id x \<noteq> k) (stored_matches (deleteMatch False r k db)))
     = mset (filter (\<lambda>x. m_id x \<noteq> k) (stored_matches db))
   \<and> (date_descending (stored_matches db) \<longrightarrow>
        filter (\<lambda>x. m_id x \<noteq> m_id m) (stored_matches (updateMatch False r m db))
          = filter (\<lambda>x. m_id x \<noteq> m_id m) (stored_matches db)
        \<and> filter (\<lambda>x. m_id x \<noteq> k) (stored_matches (deleteMatch False r k db))
          = filter (\<lambda>x. m_id x \<noteq> k) (stored_matches db))"
proof (intro conjI impI)
  show "filter (\<lambda>x. p_id x \<noteq> p_id p) (stored_players (updatePlayer False r p db))
     = filter (\<lambda>x. p_id x \<noteq> p_id p) (stored_players db)"
  proof (cases "findIndex (\<lambda>x. p_id x = p_id p) (stored_players db)")
    case None
    then show ?thesis by (simp add: stored_players_updatePlayer)
  next
    case (Some i)
    then show ?thesis
      using filter_update_other[OF Some, of p] by (simp add: stored_players_updatePlayer)
  qed
next
  show "filter (\<lambda>x. p_id x \<noteq> k) (stored_players (deletePlayer False r k db))
     = filter (\<lambda>x. p_id x \<noteq> k) (stored_players db)"
    by (simp add: stored_players_deletePlayer)
next
  show "filter (\<lambda>x. m_id x \<noteq> m_id m) (getAllMatches False r' (updateMatch False r m db))
     = filter (\<lambda>x. m_id x \<noteq> m_id m) (getAllMatches False r' db)"
    by (rule others_getAllMatches_updateMatch)
next
  show "filter (\<lambda>x. m_id x \<noteq> k) (getAllMatches False r' (deleteMatch False r k db))
     = filter (\<lambda>x. m_id x \<noteq> k) (getAllMatches False r' db)"
    by (rule others_getAllMatches_deleteMatch)
next
  show "mset (filter (\<lambda>x. m_id x \<noteq> m_id m) (stored_matches (updateMatch False r m db)))
     = mset (filter (\<lambda>x. m_id x \<noteq> m_id m) (stored_matches db))"
  proof -
    let ?P = "\<lambda>x. m_id x \<noteq> m_id m"
    consider "stored_matches (updateMatch False r m db) = stored_matches db"
      | "filter ?P (stored_matches (updateMatch False r m db))
           = filter ?P (js_sort by_date_desc (stored_matches db))"
      using others_stored_updateMatch[of r m db] by blast
    then show ?thesis
    proof cases
      case 1
      then show ?thesis by simp
    next
      case 2
      have "mset (filter ?P (js_sort by_date_desc (stored_matches db)))
              = mset (js_sort by_date_desc (filter ?P (stored_matches db)))"
        by (simp only: filter_js_sort_date)
      also have "\<dots> = mset (filter ?P (stored_matches db))"
        by (rule mset_js_sort_date)
      finally show ?thesis unfolding 2 .
    qed
  qed
next
  show "mset (filter (\<lambda>x. m_id x \<noteq> k) (stored_matches (deleteMatch False r k db)))
     = mset (filter (\<lambda>x. m_id x \<noteq> k) (stored_matches db))"
    by (simp add: stored_matches_deleteMatch filter_js_sort_date mset_js_sort_date)
next
  assume "date_descending (stored_matches db)"
  then show "filter (\<lambda>x. m_id x \<noteq> m_id m) (stored_matches (updateMatch False r m db))
          = filter (\<lambda>x. m_id x \<noteq> m_id m) (stored_matches db)"
    using others_stored_updateMatch[of r m db] by (auto simp: js_sort_date_id)
next
  assume "date_descending (stored_matches db)"
  then show "filter (\<lambda>x. m_id x \<noteq> k) (stored_matches (deleteMatch False r k db))
          = filter (\<lambda>x. m_id x \<noteq> k) (stored_matches db)"
    by (simp add: stored_matches_deleteMatch js_sort_date_id)
qed

text \<open>
  C10 for the stored matches \<open>a\<close> and \<open>b\<close>, which are stored by date descending.
\<close>

theorem mutation_frame_witness:
  "date_descending (stored_matches db_ab)
   \<and> filter (\<lambda>x. m_id x \<noteq> ''b'') (stored_matches (updateMatch False Ok (mk_match ''b'' 5 True) db_ab))
       = [mk_match ''a'' 3 True]
   \<and> filter (\<lambda>x. m_id x \<noteq> ''b'') (stored_matches (deleteMatch False Ok ''b'' db_ab))
       = [mk_match ''a'' 3 True]
   \<and> filter (\<lambda>x. m_id x \<noteq> ''b'') (getAllMatches False Ok (deleteMatch False Ok ''b'' db_ab))
       = [mk_match ''a'' 3 True]
   \<and> filter (\<lambda>x. p_id x \<noteq> ''1'') (stored_players (deletePlayer False Ok ''1'' local_db)) = [beto]"
proof -
  have d: "date_descending (stored_matches db_ab)"
    by (simp add: date_descending_def stored_matches_def db_ab_def empty_db_def mk_match_def)
  have o: "filter (\<lambda>x. m_id x \<noteq> ''b'') (stored_matches db_ab) = [mk_match ''a'' 3 True]"
    by (simp add: stored_matches_def db_ab_def empty_db_def mk_match_def)
  have g: "filter (\<lambda>x. m_id x \<noteq> ''b'') (getAllMatches False Ok db_ab) = [mk_match ''a'' 3 True]"
    by (simp add: getAllMatches_def db_ab_def empty_db_def mk_match_def js_sort_def
        by_date_desc_def)
  have p: "filter (\<lambda>x. p_id x \<noteq> ''1'') (stored_players local_db) = [beto]"
    by (simp add: stored_players_def local_db_def empty_db_def ana_def beto_def mk_player_def)
  have i: "m_id (mk_match ''b'' 5 True) = ''b''" by (simp add: mk_match_def)
  from mutation_frame[of ana Ok local_db "''1''" "mk_match ''b'' 5 True" Ok]
  have "filter (\<lambda>x. p_id x \<noteq> ''1'') (stored_players (deletePlayer False Ok ''1'' local_db)) = [beto]"
    by (simp add: p)
  moreover from mutation_frame[of ana Ok db_ab "''b''" "mk_match ''b'' 5 True" Ok] d
  have "filter (\<lambda>x. m_id x \<noteq> ''b'') (stored_matches (updateMatch False Ok (mk_match ''b'' 5 True) db_ab))
       = [mk_match ''a'' 3 True]"
    "filter (\<lambda>x. m_id x \<noteq> ''b'') (stored_matches (deleteMatch False Ok ''b'' db_ab))
       = [mk_match ''a'' 3 True]"
    "filter (\<lambda>x. m_id x \<noteq> ''b'') (getAllMatches False Ok (deleteMatch False Ok ''b'' db_ab))
       = [mk_match ''a'' 3 True]"
    by (simp_all add: i o g)
  ultimately show ?thesis using d by blast
qed

text \<open>
  C10 as stated, for every stored collection, fails for the order of the stored array:
  \<open>deleteMatch\<close> writes back what is left of the sorted list, so \<open>a\<close> and \<open>b\<close>, stored in
  ascending order of date, change places when \<open>x\<close> is deleted.
\<close>

theorem mutation_frame_counterexample:
  "filter (\<lambda>x. m_id x \<noteq> ''x'') (stored_matches (deleteMatch False Ok ''x'' db_abx))
     \<noteq> filter (\<lambda>x. m_id x \<noteq> ''x'') (stored_matches db_abx)"
  by (simp add: deleteMatch_def getAllMatches_def stored_matches_def db_abx_def empty_db_def
      mk_match_def js_sort_def by_date_desc_def)

subsection \<open>Narrative generator\<close>

text \<open>
  C8. \<open>generateMatchReport\<close> returns a string for every match, player list and client and
  never throws. Without a client it returns the fixed text about the missing key and sends
  nothing to the service. With a client it sends the one prompt; when the call throws it
  returns the fixed text about the failed connection, when the response has no text or an
  empty one it returns the fixed text about the missing analysis, and otherwise it returns
  the text of the response.
\<close>

theorem generateMatchReport_never_raises:
  "(\<exists>text. fst (generateMatchReport ai match allPlayers) = Returns text)
   \<and> generateMatchReport None match allPlayers
       = (Returns ''API Key no configurada. No se puede generar el reporte.'', [])
   \<and> snd (generateMatchReport (Some generateContent) match allPlayers)
       = [build_prompt match allPlayers]
   \<and> (generateContent (build_prompt match allPlayers) = Throws \<longrightarrow>
        fst (generateMatchReport (Some generateContent) match allPlayers)
          = Returns ''Error al conectar con la IA para generar el reporte.'')
   \<and> (\<forall>t. generateContent (build_prompt match allPlayers) = Returns t \<and> \<not> truthy t \<longrightarrow>
        fst (generateMatchReport (Some generateContent) match allPlayers)
          = Returns (''No se pudo generar el an'' @ [CHR 0xE1] @ ''lisis.''))
   \<and> (\<forall>t. generateContent (build_prompt match allPlayers) = Returns (Some t) \<and> t \<noteq> [] \<longrightarrow>
        fst (generateMatchReport (Some generateContent) match allPlayers) = Returns t)"
proof (intro conjI allI impI)
  show "\<exists>text. fst (generateMatchReport ai match allPlayers) = Returns text"
    by (rule generateMatchReport_returns)
qed (auto simp: generateMatchReport_def Let_def truthy_def)

text \<open>
  C8 for the sample match, without a client and with clients that throw, answer without
  text, answer with an empty text and answer with a text.
\<close>

theorem generateMatchReport_never_raises_witness:
  "fst (generateMatchReport None sample_match [ana, beto])
     = Returns ''API Key no configurada. No se puede generar el reporte.''
   \<and> snd (generateMatchReport None sample_match [ana, beto]) = []
   \<and> fst (generateMatchReport (Some (\<lambda>prompt. Throws)) sample_match [ana, beto])
     = Returns ''Error al conectar con la IA para generar el reporte.''
   \<and> fst (generateMatchReport (Some (\<lambda>prompt. Returns None)) sample_match [ana, beto])
     = Returns (''No se pudo generar el an'' @ [CHR 0xE1] @ ''lisis.'')
   \<and> fst (generateMatchReport (Some (\<lambda>prompt. Returns (Some ''''))) sample_match [ana, beto])
     = Returns (''No se pudo generar el an'' @ [CHR 0xE1] @ ''lisis.'')
   \<and> fst (generateMatchReport (Some (\<lambda>prompt. Returns (Some ''Gran partido''))) sample_match [ana, beto])
     = Returns ''Gran partido''"
  using generateMatchReport_never_raises[of None sample_match "[ana, beto]" "\<lambda>prompt. Throws"]
    generateMatchReport_never_raises[of None sample_match "[ana, beto]" "\<lambda>prompt. Returns None"]
    generateMatchReport_never_raises[of None sample_match "[ana, beto]" "\<lambda>prompt. Returns (Some '''')"]
    generateMatchReport_never_raises[of None sample_match "[ana, beto]" "\<lambda>prompt. Returns (Some ''Gran partido'')"]
  by (simp add: truthy_def)

end
